theory Spec2Isabelle
  imports Main "HOL-Library.Sublist" "HOL-Library.Word"
begin

section \<open>JavaScript values\<close>

text \<open>
  The module \<^verbatim>\<open>src/bitbucket/repositories.js\<close> is dynamically typed: the repo metadata, the
  pull request state, the options and the API responses are arbitrary JavaScript values.
  They are modelled by the datatype below. A string inside a value is a list of code
  units in the range U+0000 to U+00FF; an object is a plain object (its prototype is
  \<^verbatim>\<open>Object.prototype\<close>), given by the list of its own enumerable properties in enumeration
  order. Numbers (floating point), functions, symbols and object identity are outside the
  model, so no property of an object is callable.
\<close>

datatype jsval =
    JUndefined
  | JNull
  | JBool bool
  | JStr string
  | JArr "jsval list"
  | JObj "(string \<times> jsval) list"

text \<open>ToBoolean: what \<^verbatim>\<open>!x\<close> and \<^verbatim>\<open>if (x)\<close> test.\<close>

fun truthy :: "jsval \<Rightarrow> bool" where
  "truthy JUndefined = False"
| "truthy JNull = False"
| "truthy (JBool b) = b"
| "truthy (JStr s) = (s \<noteq> [])"
| "truthy (JArr xs) = True"
| "truthy (JObj kvs) = True"

text \<open>
  Property read \<^verbatim>\<open>v.k\<close> on a value that is neither \<^verbatim>\<open>undefined\<close> nor \<^verbatim>\<open>null\<close> (each
  call site below guards those two). None of the keys this module reads (\<^verbatim>\<open>name\<close>,
  \<^verbatim>\<open>is_private\<close>, \<^verbatim>\<open>state\<close>, \<^verbatim>\<open>fields\<close>, \<^verbatim>\<open>links\<close>, \<^verbatim>\<open>forks\<close>, \<^verbatim>\<open>href\<close>, \<^verbatim>\<open>parent\<close>,
  \<^verbatim>\<open>self\<close>, \<^verbatim>\<open>body\<close>) is a built-in property of a boolean, a string or an array, so such a
  read gives \<^verbatim>\<open>undefined\<close> there.
\<close>

fun read_prop :: "jsval \<Rightarrow> string \<Rightarrow> jsval" where
  "read_prop (JObj kvs) k = (case map_of kvs k of Some v \<Rightarrow> v | None \<Rightarrow> JUndefined)"
| "read_prop v k = JUndefined"

text \<open>The strings of a list, with the separator between each two neighbours.\<close>

fun join_strings :: "string \<Rightarrow> string list \<Rightarrow> string" where
  "join_strings sep [] = []"
| "join_strings sep [s] = s"
| "join_strings sep (s # t # ss) = s @ sep @ join_strings sep (t # ss)"

text \<open>
  ToString, and \<^verbatim>\<open>Array.prototype.join\<close>, which renders \<^verbatim>\<open>undefined\<close> and \<^verbatim>\<open>null\<close>
  elements as the empty string and every other element by ToString. The ToString of an
  array is its join with a comma. The ToString of an object calls its \<^verbatim>\<open>toString\<close>, then
  its \<^verbatim>\<open>valueOf\<close>, and takes the first primitive result: an object without an own
  \<^verbatim>\<open>toString\<close> property inherits the one that gives \<^verbatim>\<open>[object Object]\<close>; with an own
  \<^verbatim>\<open>toString\<close> property (not callable here) neither method gives a primitive, since the
  inherited \<^verbatim>\<open>valueOf\<close> returns the object itself, and a TypeError is thrown. The result
  \<open>None\<close> stands for that TypeError.
\<close>

fun toString :: "jsval \<Rightarrow> string option" where
  "toString JUndefined = Some ''undefined''"
| "toString JNull = Some ''null''"
| "toString (JBool b) = Some (if b then ''true'' else ''false'')"
| "toString (JStr s) = Some s"
| "toString (JArr xs) =
     map_option (join_strings '','')
       (those (map (\<lambda>x. if x = JUndefined \<or> x = JNull then Some [] else toString x) xs))"
| "toString (JObj kvs) =
     (if map_of kvs ''toString'' = None then Some ''[object Object]'' else None)"

definition array_join :: "jsval list \<Rightarrow> string \<Rightarrow> string option" where
  "array_join xs sep =
     map_option (join_strings sep)
       (those (map (\<lambda>x. if x = JUndefined \<or> x = JNull then Some [] else toString x) xs))"

section \<open>The lodash functions the module calls\<close>

definition lodash_isBoolean :: "jsval \<Rightarrow> bool" where
  "lodash_isBoolean v = (case v of JBool b \<Rightarrow> True | _ \<Rightarrow> False)"

definition lodash_isString :: "jsval \<Rightarrow> bool" where
  "lodash_isString v = (case v of JStr s \<Rightarrow> True | _ \<Rightarrow> False)"

definition lodash_isArray :: "jsval \<Rightarrow> bool" where
  "lodash_isArray v = (case v of JArr xs \<Rightarrow> True | _ \<Rightarrow> False)"

definition first_or_undefined :: "(jsval \<Rightarrow> bool) \<Rightarrow> jsval list \<Rightarrow> jsval" where
  "first_or_undefined p xs = (case List.find p xs of Some x \<Rightarrow> x | None \<Rightarrow> JUndefined)"

text \<open>
  \<^verbatim>\<open>_.find(collection, predicate)\<close> returns the first element the predicate accepts, or
  \<^verbatim>\<open>undefined\<close>. An array is searched by index. A string is array-like for lodash, so it is
  searched code unit by code unit, each one handed to the predicate as a one-character
  string. Any other object is searched through its property values, and a value with no
  own enumerable properties (\<^verbatim>\<open>undefined\<close>, \<^verbatim>\<open>null\<close>, a boolean) gives \<^verbatim>\<open>undefined\<close>.
\<close>

fun lodash_find :: "jsval \<Rightarrow> (jsval \<Rightarrow> bool) \<Rightarrow> jsval" where
  "lodash_find (JArr xs) p = first_or_undefined p xs"
| "lodash_find (JStr s) p = first_or_undefined p (map (\<lambda>c. JStr [c]) s)"
| "lodash_find (JObj kvs) p = first_or_undefined p (map snd kvs)"
| "lodash_find v p = JUndefined"

text \<open>
  \<^verbatim>\<open>_.includes(object, value)\<close> on a plain object whose property values are strings: the
  value is compared (SameValueZero) with each property value, so only an equal string is
  included.
\<close>

definition lodash_includes :: "(string \<times> string) list \<Rightarrow> jsval \<Rightarrow> bool" where
  "lodash_includes obj v = (case v of JStr s \<Rightarrow> s \<in> set (map snd obj) | _ \<Rightarrow> False)"

text \<open>
  \<^verbatim>\<open>_.get(object, path)\<close>: follow the keys while the current value is neither
  \<^verbatim>\<open>undefined\<close> nor \<^verbatim>\<open>null\<close>; the result is \<^verbatim>\<open>undefined\<close> unless the whole path was
  followed.
\<close>

fun lodash_get :: "jsval \<Rightarrow> string list \<Rightarrow> jsval" where
  "lodash_get v [] = v"
| "lodash_get JUndefined (k # ks) = JUndefined"
| "lodash_get JNull (k # ks) = JUndefined"
| "lodash_get v (k # ks) = lodash_get (read_prop v k) ks"

section \<open>The injected transport\<close>

text \<open>
  The module receives the transport \<^verbatim>\<open>api\<close> and calls \<^verbatim>\<open>api.get\<close>, \<^verbatim>\<open>api.post\<close> and
  \<^verbatim>\<open>api.request.doPrebuiltSend\<close>. A call is a value of \<open>request\<close>; the transport is a
  function from the call to its (opaque) result, and every operation threads the list of
  the calls made so far. An exception thrown by the module is the left summand.
\<close>

datatype request =
    Get string "(string \<times> string) list option"
  | Post string jsval
  | PrebuiltSend jsval

text \<open>
  The module throws plain \<^verbatim>\<open>Error\<close> objects; the constructor records which precondition
  failed, with the message of the source. \<open>TypeError\<close> and \<open>URIError\<close> are the exceptions
  of the language itself (a property read on \<^verbatim>\<open>undefined\<close> or \<^verbatim>\<open>null\<close>, a value that cannot
  be converted to a string, an identifier that cannot be encoded).
\<close>

datatype error =
    InvalidArgument string
  | MissingLink string
  | TypeError
  | URIError

type_synonym 'r outcome = "(error + 'r) \<times> request list"

definition throw :: "error \<Rightarrow> request list \<Rightarrow> 'r outcome" where
  "throw e log = (Inl e, log)"

definition api_get ::
  "(request \<Rightarrow> 'r) \<Rightarrow> string \<Rightarrow> (string \<times> string) list option \<Rightarrow> request list \<Rightarrow> 'r outcome" where
  "api_get api path params log = (Inr (api (Get path params)), log @ [Get path params])"

definition api_post :: "(request \<Rightarrow> 'r) \<Rightarrow> string \<Rightarrow> jsval \<Rightarrow> request list \<Rightarrow> 'r outcome" where
  "api_post api path body log = (Inr (api (Post path body)), log @ [Post path body])"

definition api_request_doPrebuiltSend ::
  "(request \<Rightarrow> 'r) \<Rightarrow> jsval \<Rightarrow> request list \<Rightarrow> 'r outcome" where
  "api_request_doPrebuiltSend api url log =
     (Inr (api (PrebuiltSend url)), log @ [PrebuiltSend url])"

text \<open>
  The path handed to \<^verbatim>\<open>api.get\<close> and \<^verbatim>\<open>api.post\<close> is a template literal: it is evaluated
  before the call, and an exception thrown there prevents the call.
\<close>

definition api_get_path ::
  "(request \<Rightarrow> 'r) \<Rightarrow> error + string \<Rightarrow> (string \<times> string) list option \<Rightarrow>
   request list \<Rightarrow> 'r outcome" where
  "api_get_path api path params log =
     (case path of Inl e \<Rightarrow> throw e log | Inr p \<Rightarrow> api_get api p params log)"

definition api_post_path ::
  "(request \<Rightarrow> 'r) \<Rightarrow> error + string \<Rightarrow> jsval \<Rightarrow> request list \<Rightarrow> 'r outcome" where
  "api_post_path api path body log =
     (case path of Inl e \<Rightarrow> throw e log | Inr p \<Rightarrow> api_post api p body log)"

section \<open>encodeURI\<close>

text \<open>
  The workspace and repository identifiers are handed to \<^verbatim>\<open>encodeURI\<close>, which reads a
  string as UTF-16: an identifier is a list of 16-bit code units. \<^verbatim>\<open>encodeURI\<close> leaves the
  reserved characters \<^verbatim>\<open>;/?:@&=+$,\<close>, the unreserved characters (letters, digits and
  \<^verbatim>\<open>-_.!~*'()\<close>) and \<^verbatim>\<open>#\<close> as they are. Any other code unit, or surrogate pair, is
  replaced by the percent-escapes of the UTF-8 octets of its code point, in upper-case
  hexadecimal; a surrogate without its partner throws a URIError. The result consists of
  ASCII characters.
\<close>

type_synonym code_unit = "16 word"

text \<open>A string of code units up to U+00FF, as an identifier.\<close>

definition code_units :: "string \<Rightarrow> code_unit list" where
  "code_units s = map (\<lambda>c. of_nat (of_char c)) s"

definition uriReserved :: string where
  "uriReserved = '';/?:@&=+$,''"

definition uriUnescaped :: string where
  "uriUnescaped =
     ''ABCDEFGHIJKLMNOPQRSTUVWXYZabcdefghijklmnopqrstuvwxyz0123456789-_.!~*'()''"

definition encodeURI_keeps :: "code_unit \<Rightarrow> bool" where
  "encodeURI_keeps u =
     (unat u < 128 \<and> char_of (unat u) \<in> set (uriReserved @ uriUnescaped @ ''#''))"

definition leading_surrogate :: "code_unit \<Rightarrow> bool" where
  "leading_surrogate u = (0xD800 \<le> unat u \<and> unat u \<le> 0xDBFF)"

definition trailing_surrogate :: "code_unit \<Rightarrow> bool" where
  "trailing_surrogate u = (0xDC00 \<le> unat u \<and> unat u \<le> 0xDFFF)"

text \<open>The code point of a surrogate pair.\<close>

definition pair_code_point :: "code_unit \<Rightarrow> code_unit \<Rightarrow> nat" where
  "pair_code_point u v = 0x10000 + (unat u - 0xD800) * 0x400 + (unat v - 0xDC00)"

definition hex_digit :: "nat \<Rightarrow> char" where
  "hex_digit n = ''0123456789ABCDEF'' ! (n mod 16)"

definition percent_escape :: "nat \<Rightarrow> string" where
  "percent_escape octet = [CHR ''%'', hex_digit (octet div 16), hex_digit octet]"

definition utf8_octets :: "nat \<Rightarrow> nat list" where
  "utf8_octets cp =
     (if cp < 0x80 then [cp]
      else if cp < 0x800 then [0xC0 + cp div 0x40, 0x80 + cp mod 0x40]
      else if cp < 0x10000
        then [0xE0 + cp div 0x1000, 0x80 + cp div 0x40 mod 0x40, 0x80 + cp mod 0x40]
      else [0xF0 + cp div 0x40000, 0x80 + cp div 0x1000 mod 0x40,
            0x80 + cp div 0x40 mod 0x40, 0x80 + cp mod 0x40])"

definition percent_escapes :: "nat \<Rightarrow> string" where
  "percent_escapes cp = concat (map percent_escape (utf8_octets cp))"

text \<open>The encoded rest follows, unless encoding the rest throws.\<close>

definition followed_by :: "string \<Rightarrow> error + string \<Rightarrow> error + string" where
  "followed_by s rest = (case rest of Inl e \<Rightarrow> Inl e | Inr t \<Rightarrow> Inr (s @ t))"

fun encodeURI :: "code_unit list \<Rightarrow> error + string" where
  "encodeURI [] = Inr []"
| "encodeURI [u] =
     (if encodeURI_keeps u then Inr [char_of (unat u)]
      else if trailing_surrogate u then Inl URIError
      else if leading_surrogate u then Inl URIError
      else Inr (percent_escapes (unat u)))"
| "encodeURI (u # v # vs) =
     (if encodeURI_keeps u then followed_by [char_of (unat u)] (encodeURI (v # vs))
      else if trailing_surrogate u then Inl URIError
      else if leading_surrogate u then
        (if trailing_surrogate v
         then followed_by (percent_escapes (pair_code_point u v)) (encodeURI vs)
         else Inl URIError)
      else followed_by (percent_escapes (unat u)) (encodeURI (v # vs)))"

text \<open>
  The template literals of the paths:
  \<^verbatim>\<open>`repositories/${encodeURI(workspace)}`\<close> and
  \<^verbatim>\<open>`repositories/${encodeURI(workspace)}/${encodeURI(repoSlug)}...`\<close>, where the rest is
  the literal text (and, in \<^verbatim>\<open>getCommit\<close>, the sha) that follows.
\<close>

definition workspace_path :: "code_unit list \<Rightarrow> error + string" where
  "workspace_path workspace =
     (case encodeURI workspace of
        Inl e \<Rightarrow> Inl e
      | Inr w \<Rightarrow> Inr (''repositories/'' @ w))"

definition repo_path :: "code_unit list \<Rightarrow> code_unit list \<Rightarrow> string \<Rightarrow> error + string" where
  "repo_path workspace repoSlug rest =
     (case encodeURI workspace of
        Inl e \<Rightarrow> Inl e
      | Inr w \<Rightarrow>
          (case encodeURI repoSlug of
             Inl e \<Rightarrow> Inl e
           | Inr s \<Rightarrow> Inr (''repositories/'' @ w @ ''/'' @ s @ rest)))"

section \<open>The slug of a new repository\<close>

text \<open>
  \<^verbatim>\<open>create\<close> derives the slug from \<^verbatim>\<open>repo.name\<close> by five regular expression replacements
  and \<^verbatim>\<open>toLowerCase\<close>. Each replacement is one function here.
\<close>

definition apostrophe :: char where
  "apostrophe = CHR 0x27"

definition quotation_mark :: char where
  "quotation_mark = CHR 0x22"

text \<open>\<^verbatim>\<open>.replace(/['"]/g, '')\<close>\<close>

definition replace_quotes :: "string \<Rightarrow> string" where
  "replace_quotes s = filter (\<lambda>c. c \<noteq> apostrophe \<and> c \<noteq> quotation_mark) s"

text \<open>The class \<^verbatim>\<open>\w\<close> is \<^verbatim>\<open>[A-Za-z0-9_]\<close>; \<^verbatim>\<open>\W\<close> is its complement.\<close>

definition word_char :: "char \<Rightarrow> bool" where
  "word_char c =
     (c \<in> set (''ABCDEFGHIJKLMNOPQRSTUVWXYZ'' @ ''abcdefghijklmnopqrstuvwxyz''
                @ ''0123456789'' @ ''_''))"

text \<open>\<^verbatim>\<open>.replace(/\W/g, '-')\<close>\<close>

definition replace_nonword :: "string \<Rightarrow> string" where
  "replace_nonword s = map (\<lambda>c. if word_char c then c else CHR ''-'') s"

text \<open>
  \<^verbatim>\<open>.replace(/--+/g, '-')\<close>: every maximal run of two or more dashes becomes one dash
  (of such a run, all dashes but the last are dropped).
\<close>

fun replace_dashes :: "string \<Rightarrow> string" where
  "replace_dashes (a # b # cs) =
     (if a = CHR ''-'' \<and> b = CHR ''-'' then replace_dashes (b # cs)
      else a # replace_dashes (b # cs))"
| "replace_dashes cs = cs"

text \<open>\<^verbatim>\<open>.replace(/^-/, '')\<close>: one leading dash is removed.\<close>

definition replace_leading_dash :: "string \<Rightarrow> string" where
  "replace_leading_dash s =
     (case s of [] \<Rightarrow> [] | c # cs \<Rightarrow> if c = CHR ''-'' then cs else c # cs)"

text \<open>\<^verbatim>\<open>.replace(/-$/, '')\<close>: one trailing dash is removed.\<close>

definition replace_trailing_dash :: "string \<Rightarrow> string" where
  "replace_trailing_dash s = (if s \<noteq> [] \<and> last s = CHR ''-'' then butlast s else s)"

text \<open>
  \<^verbatim>\<open>toLowerCase\<close> on code units up to U+00FF: the letters A to Z and the Latin-1 capitals
  U+00C0 to U+00DE (the multiplication sign U+00D7 apart) move up by 32.
\<close>

definition toLowerCase_char :: "char \<Rightarrow> char" where
  "toLowerCase_char c =
     (let n = (of_char c :: nat)
      in if (65 \<le> n \<and> n \<le> 90) \<or> (192 \<le> n \<and> n \<le> 222 \<and> n \<noteq> 215)
         then char_of (n + 32) else c)"

definition toLowerCase :: "string \<Rightarrow> string" where
  "toLowerCase s = map toLowerCase_char s"

definition repoSlug_of :: "string \<Rightarrow> string" where
  "repoSlug_of name =
     toLowerCase
       (replace_trailing_dash
         (replace_leading_dash
           (replace_dashes
             (replace_nonword
               (replace_quotes name)))))"

section \<open>The parts of the package outside the module\<close>

text \<open>
  \<^verbatim>\<open>constants.pullRequest.states\<close> is an object of state tokens that the module reads from
  \<^verbatim>\<open>./constants\<close>. The operations below take it as the parameter \<open>states\<close>, the list of
  its properties; \<^verbatim>\<open>constants.pullRequest.states.OPEN\<close> is the property read below.
\<close>

definition states_OPEN :: "(string \<times> string) list \<Rightarrow> jsval" where
  "states_OPEN states = (case map_of states ''OPEN'' of Some s \<Rightarrow> JStr s | None \<Rightarrow> JUndefined)"

text \<open>
  Modelled from the spec: the file \<^verbatim>\<open>constants.js\<close> is not among the sources. The spec
  names the closed enumeration of state tokens as OPEN, MERGED, DECLINED and SUPERSEDED;
  each token is its own name.
\<close>

definition constants_pullRequest_states :: "(string \<times> string) list" where
  "constants_pullRequest_states =
     [(''OPEN'', ''OPEN''), (''MERGED'', ''MERGED''),
      (''DECLINED'', ''DECLINED''), (''SUPERSEDED'', ''SUPERSEDED'')]"

text \<open>
  Modelled from the spec: the helper \<^verbatim>\<open>extractResponseBody\<close> of \<^verbatim>\<open>helpers.js\<close> is not among
  the sources. The accessors take an API response or its \<^verbatim>\<open>body\<close> property: a response
  that carries a body is unwrapped, anything else is the body already. The operations
  below take the helper as a parameter.
\<close>

definition extractResponseBody :: "jsval \<Rightarrow> jsval" where
  "extractResponseBody response =
     (if truthy (lodash_get response [''body'']) then read_prop response ''body''
      else response)"

section \<open>The operations of RepositoriesApi\<close>

text \<open>The elements of a value that is known to be an array.\<close>

definition elements :: "jsval \<Rightarrow> jsval list" where
  "elements v = (case v of JArr xs \<Rightarrow> xs | _ \<Rightarrow> [])"

definition create ::
  "(request \<Rightarrow> 'r) \<Rightarrow> code_unit list \<Rightarrow> jsval \<Rightarrow> request list \<Rightarrow> 'r outcome" where
  "create api workspace repo log =
     (if \<not> truthy repo \<or> \<not> lodash_isBoolean (read_prop repo ''is_private'')
         \<or> \<not> lodash_isString (read_prop repo ''name'')
      then throw (InvalidArgument
             ''Repo must be initialized with a booelan privacy setting and a string name'') log
      else (case read_prop repo ''name'' of
              JStr name \<Rightarrow>
                (let repoSlug = repoSlug_of name
                 in api_post_path api (repo_path workspace (code_units repoSlug) [])
                      repo log)
            | _ \<Rightarrow> throw TypeError log))"

definition createPullRequest ::
  "(request \<Rightarrow> 'r) \<Rightarrow> code_unit list \<Rightarrow> code_unit list \<Rightarrow> jsval \<Rightarrow> request list \<Rightarrow>
   'r outcome" where
  "createPullRequest api workspace repoSlug pullRequest log =
     api_post_path api (repo_path workspace repoSlug ''/pullrequests'') pullRequest log"

definition get ::
  "(request \<Rightarrow> 'r) \<Rightarrow> code_unit list \<Rightarrow> code_unit list \<Rightarrow> request list \<Rightarrow> 'r outcome" where
  "get api workspace repoSlug log =
     api_get_path api (repo_path workspace repoSlug []) None log"

definition getBranches ::
  "(request \<Rightarrow> 'r) \<Rightarrow> code_unit list \<Rightarrow> code_unit list \<Rightarrow> request list \<Rightarrow> 'r outcome" where
  "getBranches api workspace repoSlug log =
     api_get_path api (repo_path workspace repoSlug ''/refs/branches'') None log"

definition getCommit ::
  "(request \<Rightarrow> 'r) \<Rightarrow> code_unit list \<Rightarrow> code_unit list \<Rightarrow> string \<Rightarrow> request list \<Rightarrow>
   'r outcome" where
  "getCommit api workspace repoSlug sha log =
     api_get_path api (repo_path workspace repoSlug (''/commit/'' @ sha)) None log"

text \<open>
  \<^verbatim>\<open>stateArray.join(',')\<close> is evaluated when \<^verbatim>\<open>apiParameters\<close> is built, before the path:
  a state that cannot be converted to a string throws first.
\<close>

definition getPullRequests ::
  "(string \<times> string) list \<Rightarrow> (request \<Rightarrow> 'r) \<Rightarrow> code_unit list \<Rightarrow> code_unit list \<Rightarrow>
   jsval \<Rightarrow> request list \<Rightarrow> 'r outcome" where
  "getPullRequests states api workspace repoSlug state log =
     (let stateArray =
            (if \<not> truthy state then JArr [states_OPEN states]
             else if \<not> lodash_isArray state then JArr [state]
             else state);
          hasInvalidState =
            lodash_find state (\<lambda>stateElement. \<not> lodash_includes states stateElement);
          stateArray =
            (if truthy hasInvalidState then JArr [states_OPEN states] else stateArray)
      in case array_join (elements stateArray) '','' of
           None \<Rightarrow> throw TypeError log
         | Some joined \<Rightarrow>
             (let apiParameters = [(''state'', joined)]
              in api_get_path api (repo_path workspace repoSlug ''/pullrequests'')
                   (Some apiParameters) log))"

text \<open>
  The third parameter is destructured with the default \<^verbatim>\<open>{}\<close>: \<^verbatim>\<open>undefined\<close> gives two
  absent properties, and \<^verbatim>\<open>null\<close> cannot be destructured. The template literal
  \<^verbatim>\<open>`+${field}`\<close> converts each field to a string.
\<close>

definition getPullRequestsWithFields ::
  "(string \<times> string) list \<Rightarrow> (request \<Rightarrow> 'r) \<Rightarrow> code_unit list \<Rightarrow> code_unit list \<Rightarrow>
   jsval \<Rightarrow> request list \<Rightarrow> 'r outcome" where
  "getPullRequestsWithFields states api workspace repoSlug options log =
     (if options = JNull then throw TypeError log
      else
       (let state = read_prop options ''state'';
            fields = read_prop options ''fields''
        in if \<not> lodash_isArray fields \<or> length (elements fields) < 1
           then throw (InvalidArgument
                  ''getPullRequestsWithFields: options argument missing or has missing/empty 'fields' array.'')
                  log
           else
            (let stateArray =
                   (if \<not> truthy state then JArr [states_OPEN states]
                    else if \<not> lodash_isArray state then JArr [state]
                    else state);
                 hasInvalidState =
                   lodash_find state (\<lambda>stateElement. \<not> lodash_includes states stateElement);
                 stateArray =
                   (if truthy hasInvalidState then JArr [states_OPEN states] else stateArray)
             in case array_join (elements stateArray) '','' of
                  None \<Rightarrow> throw TypeError log
                | Some joined \<Rightarrow>
                    (let apiParameters = [(''state'', joined)]
                     in case those (map (\<lambda>field. map_option (\<lambda>s. JStr (''+'' @ s))
                                                      (toString field))
                                      (elements fields)) of
                          None \<Rightarrow> throw TypeError log
                        | Some fieldsWithEncodedPlus \<Rightarrow>
                            (case array_join fieldsWithEncodedPlus '','' of
                               None \<Rightarrow> throw TypeError log
                             | Some joinedFields \<Rightarrow>
                                 (let apiParameters =
                                        apiParameters @ [(''fields'', joinedFields)]
                                  in api_get_path api
                                       (repo_path workspace repoSlug ''/pullrequests'')
                                       (Some apiParameters) log))))))"

definition getByWorkspace ::
  "(request \<Rightarrow> 'r) \<Rightarrow> code_unit list \<Rightarrow> request list \<Rightarrow> 'r outcome" where
  "getByWorkspace api workspace log =
     api_get_path api (workspace_path workspace) None log"

definition getForks ::
  "(request \<Rightarrow> 'r) \<Rightarrow> code_unit list \<Rightarrow> code_unit list \<Rightarrow> request list \<Rightarrow> 'r outcome" where
  "getForks api workspace repoSlug log =
     api_get_path api (repo_path workspace repoSlug ''/forks'') None log"

definition getForksFromResponse ::
  "(jsval \<Rightarrow> jsval) \<Rightarrow> (request \<Rightarrow> 'r) \<Rightarrow> jsval \<Rightarrow> request list \<Rightarrow> 'r outcome" where
  "getForksFromResponse extractBody api response log =
     (let prebuiltURL = lodash_get (extractBody response) [''links'', ''forks'', ''href'']
      in if \<not> truthy prebuiltURL
         then throw (MissingLink ''getForksFromResponse: argument has no 'forks' url.'') log
         else api_request_doPrebuiltSend api prebuiltURL log)"

definition getParentFromResponse ::
  "(jsval \<Rightarrow> jsval) \<Rightarrow> (request \<Rightarrow> 'r) \<Rightarrow> jsval \<Rightarrow> request list \<Rightarrow> 'r outcome" where
  "getParentFromResponse extractBody api response log =
     (let prebuiltURL =
            lodash_get (extractBody response) [''parent'', ''links'', ''self'', ''href'']
      in if \<not> truthy prebuiltURL
         then throw (MissingLink
                ''getForksFromResponse: argument has no 'parent' info. Call hasParent first to guard this method call.'')
                log
         else api_request_doPrebuiltSend api prebuiltURL log)"

definition hasParent :: "(jsval \<Rightarrow> jsval) \<Rightarrow> jsval \<Rightarrow> error + bool" where
  "hasParent extractBody response =
     (let body = extractBody response
      in if body = JUndefined \<or> body = JNull then Inl TypeError
         else Inr (truthy (read_prop body ''parent'')))"

section \<open>Notions used to state the properties\<close>

text \<open>The outcome is an exception of the given kind, whatever its message.\<close>

definition raises_InvalidArgument :: "'r outcome \<Rightarrow> bool" where
  "raises_InvalidArgument out = (case fst out of Inl (InvalidArgument m) \<Rightarrow> True | _ \<Rightarrow> False)"

definition raises_MissingLink :: "'r outcome \<Rightarrow> bool" where
  "raises_MissingLink out = (case fst out of Inl (MissingLink m) \<Rightarrow> True | _ \<Rightarrow> False)"

text \<open>The value a transport call carries for a query parameter, if any.\<close>

definition query_value :: "string \<Rightarrow> request \<Rightarrow> string option" where
  "query_value k r = (case r of Get path (Some params) \<Rightarrow> map_of params k | _ \<Rightarrow> None)"

text \<open>The outcome is an exception, of whatever kind.\<close>

definition raises :: "'r outcome \<Rightarrow> bool" where
  "raises out = (case fst out of Inl e \<Rightarrow> True | Inr r \<Rightarrow> False)"

text \<open>The text that the default filter \<^verbatim>\<open>[constants.pullRequest.states.OPEN]\<close> joins to.\<close>

definition OPEN_joined :: "(string \<times> string) list \<Rightarrow> string" where
  "OPEN_joined states = (case map_of states ''OPEN'' of Some s \<Rightarrow> s | None \<Rightarrow> [])"

text \<open>
  The state query value that \<^verbatim>\<open>getPullRequests\<close> (lines 94 to 108) and
  \<^verbatim>\<open>getPullRequestsWithFields\<close> (lines 130 to 144) compute from the state argument, each
  with its own copy of the statements; \<open>None\<close> when the join throws a TypeError.
\<close>

definition state_query :: "(string \<times> string) list \<Rightarrow> jsval \<Rightarrow> string option" where
  "state_query states state =
     (let stateArray =
            (if \<not> truthy state then JArr [states_OPEN states]
             else if \<not> lodash_isArray state then JArr [state]
             else state);
          hasInvalidState =
            lodash_find state (\<lambda>stateElement. \<not> lodash_includes states stateElement);
          stateArray =
            (if truthy hasInvalidState then JArr [states_OPEN states] else stateArray)
      in array_join (elements stateArray) '','')"

text \<open>
  An identifier has a lone surrogate if, read from the left, a trailing surrogate comes
  without a leading one before it, or a leading surrogate without a trailing one after it.
\<close>

fun lone_surrogate :: "code_unit list \<Rightarrow> bool" where
  "lone_surrogate [] = False"
| "lone_surrogate [u] = (leading_surrogate u \<or> trailing_surrogate u)"
| "lone_surrogate (u # v # vs) =
     (if leading_surrogate u then (if trailing_surrogate v then lone_surrogate vs else True)
      else if trailing_surrogate u then True
      else lone_surrogate (v # vs))"

text \<open>The characters a slug may consist of: \<^verbatim>\<open>[a-z0-9._-]\<close>.\<close>

definition slug_alphabet :: string where
  "slug_alphabet = ''abcdefghijklmnopqrstuvwxyz'' @ ''0123456789'' @ ''._-''"

definition printable_ascii :: "char \<Rightarrow> bool" where
  "printable_ascii c = (32 \<le> (of_char c :: nat) \<and> (of_char c :: nat) \<le> 126)"

text \<open>Two neighbouring dashes somewhere in the string, by recursion.\<close>

fun has_double_dash :: "string \<Rightarrow> bool" where
  "has_double_dash (a # b # cs) =
     ((a = CHR ''-'' \<and> b = CHR ''-'') \<or> has_double_dash (b # cs))"
| "has_double_dash cs = False"

text \<open>The slug before the final \<^verbatim>\<open>toLowerCase\<close>.\<close>

definition before_toLowerCase :: "string \<Rightarrow> string" where
  "before_toLowerCase name =
     replace_trailing_dash
       (replace_leading_dash (replace_dashes (replace_nonword (replace_quotes name))))"

section \<open>Properties of the slug\<close>

lemma toLowerCase_char_dash: "toLowerCase_char c = CHR ''-'' \<longleftrightarrow> c = CHR ''-''"
proof
  assume "c = CHR ''-''"
  then show "toLowerCase_char c = CHR ''-''" by (simp add: toLowerCase_char_def)
next
  assume a: "toLowerCase_char c = CHR ''-''"
  show "c = CHR ''-''"
  proof (rule ccontr)
    assume n: "c \<noteq> CHR ''-''"
    let ?n = "of_char c :: nat"
    from a n have r: "(65 \<le> ?n \<and> ?n \<le> 90) \<or> (192 \<le> ?n \<and> ?n \<le> 222 \<and> ?n \<noteq> 215)"
      and e: "char_of (?n + 32) = CHR ''-''"
      by (auto simp: toLowerCase_char_def Let_def split: if_splits)
    from e have "of_char (char_of (?n + 32)) = (of_char (CHR ''-'') :: nat)" by simp
    then have "(?n + 32) mod 256 = 45" by simp
    with r show False by auto
  qed
qed

lemma toLowerCase_char_dash': "CHR ''-'' = toLowerCase_char c \<longleftrightarrow> CHR ''-'' = c"
  using toLowerCase_char_dash [of c] by auto

lemma toLowerCase_char_upper:
  "c \<in> set ''ABCDEFGHIJKLMNOPQRSTUVWXYZ'' \<Longrightarrow>
   toLowerCase_char c \<in> set ''abcdefghijklmnopqrstuvwxyz''"
  by (simp add: toLowerCase_char_def) (elim disjE; simp add: char_of_eq_iff)

lemma toLowerCase_char_lower:
  "c \<in> set ''abcdefghijklmnopqrstuvwxyz'' \<Longrightarrow> toLowerCase_char c = c"
  by (simp add: toLowerCase_char_def) (elim disjE; simp)

lemma toLowerCase_char_other:
  "c \<in> set ''0123456789._-'' \<Longrightarrow> toLowerCase_char c = c"
  by (simp add: toLowerCase_char_def) (elim disjE; simp)

lemma toLowerCase_char_slug:
  assumes "word_char c \<or> c = CHR ''-''"
  shows "toLowerCase_char c \<in> set slug_alphabet"
proof -
  from assms consider
      (upper) "c \<in> set ''ABCDEFGHIJKLMNOPQRSTUVWXYZ''"
    | (lower) "c \<in> set ''abcdefghijklmnopqrstuvwxyz''"
    | (other) "c \<in> set ''0123456789._-''"
    unfolding word_char_def set_append Un_iff by fastforce
  then show ?thesis
  proof cases
    case upper
    then have "toLowerCase_char c \<in> set ''abcdefghijklmnopqrstuvwxyz''"
      by (rule toLowerCase_char_upper)
    then show ?thesis unfolding slug_alphabet_def set_append Un_iff by blast
  next
    case lower
    then have "toLowerCase_char c = c" by (rule toLowerCase_char_lower)
    with lower show ?thesis unfolding slug_alphabet_def set_append Un_iff by simp
  next
    case other
    then have "toLowerCase_char c = c" by (rule toLowerCase_char_other)
    with other show ?thesis
      unfolding slug_alphabet_def set_append Un_iff by simp
  qed
qed

lemma toLowerCase_char_idem:
  assumes "c \<in> set slug_alphabet"
  shows "toLowerCase_char c = c"
proof -
  from assms consider
      (lower) "c \<in> set ''abcdefghijklmnopqrstuvwxyz''"
    | (other) "c \<in> set ''0123456789._-''"
    unfolding slug_alphabet_def set_append Un_iff by fastforce
  then show ?thesis
    by cases (simp_all only: toLowerCase_char_lower toLowerCase_char_other)
qed

lemma has_double_dash_sublist: "has_double_dash s \<longleftrightarrow> sublist ''--'' s"
  by (induction s rule: has_double_dash.induct) (auto simp: sublist_Cons_right)

lemma replace_dashes_head: "\<exists>r. replace_dashes (b # cs) = b # r"
  by (induction cs arbitrary: b) auto

lemma replace_dashes_set: "set (replace_dashes s) \<subseteq> set s"
  by (induction s rule: replace_dashes.induct) auto

lemma replace_dashes_no_double: "\<not> has_double_dash (replace_dashes s)"
proof (induction s rule: replace_dashes.induct)
  case (1 a b cs)
  obtain r where r: "replace_dashes (b # cs) = b # r"
    using replace_dashes_head by blast
  with 1 show ?case by auto
qed simp_all


lemma replace_nonword_set:
  "c \<in> set (replace_nonword s) \<Longrightarrow> word_char c \<or> c = CHR ''-''"
  by (auto simp: replace_nonword_def)

lemma has_double_dash_Cons: "has_double_dash cs \<Longrightarrow> has_double_dash (c # cs)"
  by (cases cs) auto

lemma replace_leading_dash_set: "set (replace_leading_dash s) \<subseteq> set s"
  by (auto simp: replace_leading_dash_def split: list.splits if_splits)

lemma replace_leading_dash_no_double:
  "\<not> has_double_dash s \<Longrightarrow> \<not> has_double_dash (replace_leading_dash s)"
  by (auto simp: replace_leading_dash_def split: list.splits dest: has_double_dash_Cons)

lemma replace_leading_dash_no_prefix:
  "\<not> has_double_dash s \<Longrightarrow> \<not> prefix ''-'' (replace_leading_dash s)"
proof (cases s)
  case Nil
  then show ?thesis by (simp add: replace_leading_dash_def)
next
  case (Cons c cs)
  assume "\<not> has_double_dash s"
  with Cons show ?thesis by (cases cs) (auto simp: replace_leading_dash_def)
qed

lemma replace_trailing_dash_snoc:
  "replace_trailing_dash (xs @ [x]) = (if x = CHR ''-'' then xs else xs @ [x])"
  by (simp add: replace_trailing_dash_def)

lemma replace_trailing_dash_set: "set (replace_trailing_dash s) \<subseteq> set s"
  by (cases s rule: rev_cases) (auto simp: replace_trailing_dash_snoc, simp add: replace_trailing_dash_def)

lemma replace_trailing_dash_no_double:
  "\<not> sublist ''--'' s \<Longrightarrow> \<not> sublist ''--'' (replace_trailing_dash s)"
proof (cases s rule: rev_cases)
  case Nil
  then show ?thesis by (simp add: replace_trailing_dash_def)
next
  case (snoc xs x)
  assume "\<not> sublist ''--'' s"
  with snoc have "\<not> sublist ''--'' xs" by (auto simp: sublist_append)
  with snoc \<open>\<not> sublist ''--'' s\<close> show ?thesis
    by (simp add: replace_trailing_dash_snoc)
qed

lemma replace_trailing_dash_no_prefix:
  "\<not> prefix ''-'' s \<Longrightarrow> \<not> prefix ''-'' (replace_trailing_dash s)"
  by (cases s rule: rev_cases) (auto simp: replace_trailing_dash_snoc replace_trailing_dash_def)

lemma replace_trailing_dash_no_suffix:
  assumes "\<not> sublist ''--'' s"
  shows "\<not> suffix ''-'' (replace_trailing_dash s)"
proof (cases s rule: rev_cases)
  case Nil
  then show ?thesis by (simp add: replace_trailing_dash_def)
next
  case (snoc xs x)
  show ?thesis
  proof (cases "x = CHR ''-''")
    case False
    with snoc show ?thesis by (simp add: replace_trailing_dash_snoc)
  next
    case True
    have "\<not> suffix ''-'' xs"
    proof
      assume "suffix ''-'' xs"
      then obtain ys where "xs = ys @ ''-''" unfolding suffix_def by blast
      with snoc True have "s = ys @ ''--'' @ []" by simp
      then have "sublist ''--'' s" unfolding sublist_def by blast
      with assms show False by contradiction
    qed
    with snoc True show ?thesis by (simp add: replace_trailing_dash_snoc)
  qed
qed

lemma toLowerCase_double_dash: "has_double_dash (toLowerCase s) = has_double_dash s"
  unfolding toLowerCase_def
  by (induction s rule: has_double_dash.induct) (simp_all add: toLowerCase_char_dash)

lemma toLowerCase_prefix_dash: "prefix ''-'' (toLowerCase s) = prefix ''-'' s"
  unfolding toLowerCase_def by (cases s) (simp_all add: toLowerCase_char_dash')

lemma toLowerCase_suffix_dash: "suffix ''-'' (toLowerCase s) = suffix ''-'' s"
  unfolding toLowerCase_def
  by (cases s rule: rev_cases) (simp_all add: toLowerCase_char_dash')

lemma repoSlug_of_before: "repoSlug_of name = toLowerCase (before_toLowerCase name)"
  by (simp add: repoSlug_of_def before_toLowerCase_def)

lemma before_toLowerCase_set:
  "c \<in> set (before_toLowerCase name) \<Longrightarrow> word_char c \<or> c = CHR ''-''"
  unfolding before_toLowerCase_def
  using replace_trailing_dash_set replace_leading_dash_set replace_dashes_set replace_nonword_set
  by (meson subsetD)

lemma before_toLowerCase_no_double: "\<not> sublist ''--'' (before_toLowerCase name)"
  unfolding before_toLowerCase_def
  by (intro replace_trailing_dash_no_double)
     (simp add: has_double_dash_sublist [symmetric] replace_leading_dash_no_double
        replace_dashes_no_double)

lemma before_toLowerCase_no_prefix: "\<not> prefix ''-'' (before_toLowerCase name)"
  unfolding before_toLowerCase_def
  by (intro replace_trailing_dash_no_prefix replace_leading_dash_no_prefix
        replace_dashes_no_double)

lemma before_toLowerCase_no_suffix: "\<not> suffix ''-'' (before_toLowerCase name)"
  unfolding before_toLowerCase_def
  by (intro replace_trailing_dash_no_suffix)
     (simp add: has_double_dash_sublist [symmetric] replace_leading_dash_no_double
        replace_dashes_no_double)

lemma repoSlug_of_shape:
  "toLowerCase (repoSlug_of name) = repoSlug_of name
   \<and> set (repoSlug_of name) \<subseteq> set slug_alphabet
   \<and> \<not> sublist ''--'' (repoSlug_of name)
   \<and> \<not> prefix ''-'' (repoSlug_of name)
   \<and> \<not> suffix ''-'' (repoSlug_of name)"
proof (intro conjI)
  have in_alphabet: "toLowerCase_char c \<in> set slug_alphabet"
    if "c \<in> set (before_toLowerCase name)" for c
    using that before_toLowerCase_set toLowerCase_char_slug by blast
  show "set (repoSlug_of name) \<subseteq> set slug_alphabet"
    unfolding repoSlug_of_before toLowerCase_def using in_alphabet by auto
  show "toLowerCase (repoSlug_of name) = repoSlug_of name"
    unfolding repoSlug_of_before toLowerCase_def
    using in_alphabet by (simp add: toLowerCase_char_idem)
  show "\<not> sublist ''--'' (repoSlug_of name)"
    unfolding repoSlug_of_before
    using before_toLowerCase_no_double [of name]
    by (simp add: has_double_dash_sublist [symmetric] toLowerCase_double_dash)
  show "\<not> prefix ''-'' (repoSlug_of name)"
    unfolding repoSlug_of_before
    by (simp only: toLowerCase_prefix_dash before_toLowerCase_no_prefix not_False_eq_True)
  show "\<not> suffix ''-'' (repoSlug_of name)"
    unfolding repoSlug_of_before
    by (simp only: toLowerCase_suffix_dash before_toLowerCase_no_suffix not_False_eq_True)
qed


text \<open>
  Claim C6. For every name of printable ASCII characters and of length at most 100, the
  slug that \<^verbatim>\<open>create\<close> derives is lower case, consists of characters of \<^verbatim>\<open>[a-z0-9._-]\<close>
  only, has no two neighbouring dashes, and neither starts nor ends with a dash.
\<close>

theorem repoSlug_well_formed:
  assumes "\<forall>c \<in> set name. printable_ascii c" and "length name \<le> 100"
  shows "toLowerCase (repoSlug_of name) = repoSlug_of name
         \<and> set (repoSlug_of name) \<subseteq> set slug_alphabet
         \<and> \<not> sublist ''--'' (repoSlug_of name)
         \<and> \<not> prefix ''-'' (repoSlug_of name)
         \<and> \<not> suffix ''-'' (repoSlug_of name)"
  by (rule repoSlug_of_shape)

theorem repoSlug_well_formed_witness:
  "list_all printable_ascii ''--Ab  c..D_e--''
   \<and> length ''--Ab  c..D_e--'' \<le> 100
   \<and> repoSlug_of ''--Ab  c..D_e--'' = ''ab-c-d_e''
   \<and> toLowerCase (repoSlug_of ''--Ab  c..D_e--'') = repoSlug_of ''--Ab  c..D_e--''
   \<and> set (repoSlug_of ''--Ab  c..D_e--'') \<subseteq> set slug_alphabet
   \<and> \<not> sublist ''--'' (repoSlug_of ''--Ab  c..D_e--'')
   \<and> \<not> prefix ''-'' (repoSlug_of ''--Ab  c..D_e--'')
   \<and> \<not> suffix ''-'' (repoSlug_of ''--Ab  c..D_e--'')"
proof -
  have printable: "\<forall>c \<in> set ''--Ab  c..D_e--''. printable_ascii c"
    by (simp add: printable_ascii_def)
  have short: "length ''--Ab  c..D_e--'' \<le> 100"
    by simp
  have slug: "repoSlug_of ''--Ab  c..D_e--'' = ''ab-c-d_e''"
    by code_simp
  from repoSlug_well_formed [OF printable short] printable short slug
  show ?thesis unfolding list_all_iff by blast
qed

section \<open>Properties of encodeURI\<close>

lemmas encodeURI_unfold =
  code_units_def encodeURI_keeps_def leading_surrogate_def trailing_surrogate_def
  pair_code_point_def percent_escapes_def utf8_octets_def percent_escape_def hex_digit_def
  followed_by_def uriReserved_def uriUnescaped_def char_of_eq_iff

lemma surrogate_not_kept:
  "leading_surrogate u \<or> trailing_surrogate u \<Longrightarrow> \<not> encodeURI_keeps u"
  by (auto simp: leading_surrogate_def trailing_surrogate_def encodeURI_keeps_def)

lemma encodeURI_kept_Cons:
  "encodeURI_keeps u \<Longrightarrow>
   encodeURI (u # us) = followed_by [char_of (unat u)] (encodeURI us)"
  by (cases us) (simp_all add: followed_by_def)

lemma encodeURI_escaped_Cons:
  "\<not> encodeURI_keeps u \<Longrightarrow> \<not> leading_surrogate u \<Longrightarrow> \<not> trailing_surrogate u \<Longrightarrow>
   encodeURI (u # us) = followed_by (percent_escapes (unat u)) (encodeURI us)"
  by (cases us) (simp_all add: followed_by_def)

lemma encodeURI_pair_Cons:
  "leading_surrogate u \<Longrightarrow> trailing_surrogate v \<Longrightarrow>
   encodeURI (u # v # vs) = followed_by (percent_escapes (pair_code_point u v)) (encodeURI vs)"
  using surrogate_not_kept [of u]
  by (auto simp: leading_surrogate_def trailing_surrogate_def)

lemma surrogates_disjoint: "leading_surrogate u \<Longrightarrow> \<not> trailing_surrogate u"
  by (simp add: leading_surrogate_def trailing_surrogate_def)

lemma followed_by_Inl: "followed_by s r = Inl e \<longleftrightarrow> r = Inl e"
  by (simp add: followed_by_def split: sum.splits)

lemma followed_by_Inr: "followed_by s r = Inr t \<longleftrightarrow> (\<exists>t'. r = Inr t' \<and> t = s @ t')"
  by (auto simp: followed_by_def split: sum.splits)

lemma encodeURI_lone_surrogate: "encodeURI s = Inl e \<longleftrightarrow> e = URIError \<and> lone_surrogate s"
proof (induction s rule: lone_surrogate.induct)
  case 1
  then show ?case by simp
next
  case (2 u)
  then show ?case using surrogate_not_kept [of u] by auto
next
  case (3 u v vs)
  show ?case
  proof (cases "leading_surrogate u")
    case True
    then have nk: "\<not> encodeURI_keeps u" and nt: "\<not> trailing_surrogate u"
      using surrogate_not_kept [of u] surrogates_disjoint [of u] by auto
    show ?thesis
    proof (cases "trailing_surrogate v")
      case tv: True
      with 3(1) True have "encodeURI vs = Inl e \<longleftrightarrow> e = URIError \<and> lone_surrogate vs"
        by simp
      with True tv nk nt show ?thesis by (simp add: followed_by_Inl)
    next
      case False
      with True nk nt show ?thesis by auto
    qed
  next
    case False
    show ?thesis
    proof (cases "trailing_surrogate u")
      case True
      with False show ?thesis using surrogate_not_kept [of u] by auto
    next
      case nt: False
      with 3(2) False have "encodeURI (v # vs) = Inl e \<longleftrightarrow> e = URIError \<and> lone_surrogate (v # vs)"
        by simp
      with False nt show ?thesis by (simp add: followed_by_Inl)
    qed
  qed
qed

lemma encodeURI_result: "(\<exists>t. encodeURI s = Inr t) \<or> encodeURI s = Inl URIError"
proof (cases "encodeURI s")
  case (Inl e)
  then show ?thesis by (simp add: encodeURI_lone_surrogate)
next
  case (Inr t)
  then show ?thesis by simp
qed

lemma unat_code_unit: "unat (of_nat (of_char c) :: code_unit) = of_char c"
proof -
  have "(of_char c :: nat) < 256" by simp
  then have "(of_char c :: nat) < 65536" by linarith
  then have "(of_char c :: nat) mod 65536 = of_char c" by (rule mod_less)
  then show ?thesis by (simp add: unat_of_nat)
qed

lemma code_unit_not_surrogate:
  "\<not> leading_surrogate (of_nat (of_char c)) \<and> \<not> trailing_surrogate (of_nat (of_char c))"
proof -
  have "(of_char c :: nat) < 256" by simp
  then have "\<not> (0xD800 :: nat) \<le> of_char c" and "\<not> (0xDC00 :: nat) \<le> of_char c"
    by linarith+
  then show ?thesis
    by (simp add: leading_surrogate_def trailing_surrogate_def unat_code_unit)
qed

text \<open>On code units up to U+00FF no surrogate occurs, and the encoding goes unit by unit.\<close>

lemma encodeURI_code_units_Cons:
  "encodeURI (code_units (c # s)) =
     followed_by
       (if encodeURI_keeps (of_nat (of_char c)) then [c] else percent_escapes (of_char c))
       (encodeURI (code_units s))"
proof (cases "encodeURI_keeps (of_nat (of_char c))")
  case True
  then show ?thesis
    by (simp add: code_units_def encodeURI_kept_Cons unat_code_unit)
next
  case False
  then show ?thesis
    using code_unit_not_surrogate [of c]
    by (simp add: code_units_def encodeURI_escaped_Cons unat_code_unit)
qed

lemma slug_alphabet_kept:
  assumes "c \<in> set slug_alphabet"
  shows "encodeURI_keeps (of_nat (of_char c))"
proof -
  from assms consider
      (lower) "c \<in> set ''abcdefghijklmnopqrstuvwxyz''"
    | (other) "c \<in> set ''0123456789._-''"
    unfolding slug_alphabet_def set_append Un_iff by fastforce
  then show ?thesis
  proof cases
    case lower
    then show ?thesis
      unfolding encodeURI_keeps_def unat_code_unit uriReserved_def uriUnescaped_def
      by simp (elim disjE; simp)
  next
    case other
    then show ?thesis
      unfolding encodeURI_keeps_def unat_code_unit uriReserved_def uriUnescaped_def
      by simp (elim disjE; simp)
  qed
qed

text \<open>A slug is made of unreserved characters: \<^verbatim>\<open>encodeURI\<close> leaves it as it is.\<close>

lemma encodeURI_slug:
  "set s \<subseteq> set slug_alphabet \<Longrightarrow> encodeURI (code_units s) = Inr s"
proof (induction s)
  case Nil
  then show ?case by (simp add: code_units_def)
next
  case (Cons c s)
  then have "encodeURI_keeps (of_nat (of_char c))" and "encodeURI (code_units s) = Inr s"
    by (simp_all add: slug_alphabet_kept)
  then show ?case
    by (simp add: encodeURI_code_units_Cons followed_by_def)
qed

lemma repo_path_slug:
  "repo_path workspace (code_units (repoSlug_of name)) rest =
     (case encodeURI workspace of
        Inl e \<Rightarrow> Inl e
      | Inr w \<Rightarrow> Inr (''repositories/'' @ w @ ''/'' @ repoSlug_of name @ rest))"
proof -
  have "set (repoSlug_of name) \<subseteq> set slug_alphabet"
    using repoSlug_of_shape by blast
  then have "encodeURI (code_units (repoSlug_of name)) = Inr (repoSlug_of name)"
    by (rule encodeURI_slug)
  then show ?thesis by (simp add: repo_path_def split: sum.splits)
qed


lemma hex_digit_unescaped: "hex_digit n \<in> set uriUnescaped"
proof -
  have "n mod 16 < length ''0123456789ABCDEF''" by simp
  then have "hex_digit n \<in> set ''0123456789ABCDEF''"
    unfolding hex_digit_def by (rule nth_mem)
  moreover have "set ''0123456789ABCDEF'' \<subseteq> set uriUnescaped"
    by (simp add: uriUnescaped_def)
  ultimately show ?thesis by blast
qed

lemma percent_escape_set:
  "set (percent_escape octet) \<subseteq> set (uriReserved @ uriUnescaped @ ''#%'')"
  using hex_digit_unescaped by (simp add: percent_escape_def)

lemma percent_escapes_set:
  "set (percent_escapes cp) \<subseteq> set (uriReserved @ uriUnescaped @ ''#%'')"
  unfolding percent_escapes_def using percent_escape_set by auto

lemma kept_char_set:
  "encodeURI_keeps u \<Longrightarrow> char_of (unat u) \<in> set (uriReserved @ uriUnescaped @ ''#%'')"
  by (auto simp: encodeURI_keeps_def)

lemma encodeURI_set:
  "encodeURI s = Inr t \<Longrightarrow> set t \<subseteq> set (uriReserved @ uriUnescaped @ ''#%'')"
proof (induction s arbitrary: t rule: lone_surrogate.induct)
  case 1
  then show ?case by simp
next
  case (2 u)
  then show ?case
    using kept_char_set [of u] percent_escapes_set [of "unat u"]
    by (auto split: if_splits)
next
  case (3 u v vs)
  show ?case
  proof (cases "encodeURI_keeps u")
    case True
    then have nl: "\<not> leading_surrogate u" and nt: "\<not> trailing_surrogate u"
      using surrogate_not_kept [of u] by auto
    from 3(3) True obtain t' where t': "encodeURI (v # vs) = Inr t'" "t = [char_of (unat u)] @ t'"
      by (auto simp: followed_by_Inr)
    from 3(2) [OF nl nt t'(1)] kept_char_set [OF True] t'(2) show ?thesis by auto
  next
    case False
    show ?thesis
    proof (cases "leading_surrogate u")
      case True
      with 3(3) False have tv: "trailing_surrogate v"
        using surrogates_disjoint [of u] by (auto split: if_splits)
      with 3(3) False True obtain t' where
        t': "encodeURI vs = Inr t'" "t = percent_escapes (pair_code_point u v) @ t'"
        using surrogates_disjoint [of u] by (auto simp: followed_by_Inr)
      from 3(1) [OF True tv t'(1)] percent_escapes_set [of "pair_code_point u v"] t'(2)
      show ?thesis by auto
    next
      case nl: False
      with 3(3) False have nt: "\<not> trailing_surrogate u"
        by (auto split: if_splits)
      with 3(3) False nl obtain t' where
        t': "encodeURI (v # vs) = Inr t'" "t = percent_escapes (unat u) @ t'"
        by (auto simp: followed_by_Inr)
      from 3(2) [OF nl nt t'(1)] percent_escapes_set [of "unat u"] t'(2)
      show ?thesis by auto
    qed
  qed
qed

lemma encodeURI_example_team: "encodeURI (code_units ''my team'') = Inr ''my%20team''"
  by (simp add: encodeURI_unfold)

lemma encodeURI_example_slash: "encodeURI (code_units ''a/b c'') = Inr ''a/b%20c''"
  by (simp add: encodeURI_unfold)

lemma encodeURI_example_latin: "encodeURI [0xE9] = Inr ''%C3%A9''"
  by (simp add: encodeURI_unfold)

lemma encodeURI_example_euro: "encodeURI [0x20AC] = Inr ''%E2%82%AC''"
  by (simp add: encodeURI_unfold)

lemma encodeURI_example_pair: "encodeURI [0xD83D, 0xDE00] = Inr ''%F0%9F%98%80''"
  by (simp add: encodeURI_unfold)

lemma encodeURI_example_lone: "encodeURI [0x61, 0xD83D] = Inl URIError"
  by (simp add: encodeURI_unfold)


section \<open>The slug: quotes\<close>

lemma replace_quotes_apostrophe:
  "replace_quotes (xs @ apostrophe # ys) = replace_quotes (xs @ ys)"
  by (simp add: replace_quotes_def)

lemma replace_quotes_quotation_mark:
  "replace_quotes (xs @ quotation_mark # ys) = replace_quotes (xs @ ys)"
  by (simp add: replace_quotes_def)

lemma repoSlug_of_example: "repoSlug_of ''My Repo's Name!!'' = ''my-repos-name''"
  by code_simp

text \<open>
  Claim C2, as the code has it. An apostrophe or a quotation mark anywhere in the name
  leaves the slug unchanged: it vanishes and is no separator. So the name
  \<^verbatim>\<open>My Repo's Name!!\<close> has the slug \<^verbatim>\<open>my-repos-name\<close>, and \<^verbatim>\<open>create\<close> posts to that path
  (unless the workspace cannot be encoded).
\<close>

theorem repoSlug_quotes_vanish:
  "repoSlug_of (xs @ apostrophe # ys) = repoSlug_of (xs @ ys)
   \<and> repoSlug_of (xs @ quotation_mark # ys) = repoSlug_of (xs @ ys)
   \<and> repoSlug_of ''My Repo's Name!!'' = ''my-repos-name''
   \<and> create api workspace
         (JObj [(''name'', JStr ''My Repo's Name!!''), (''is_private'', JBool p)]) log
       = api_post_path api
           (case encodeURI workspace of
              Inl e \<Rightarrow> Inl e
            | Inr w \<Rightarrow> Inr (''repositories/'' @ w @ ''/my-repos-name''))
           (JObj [(''name'', JStr ''My Repo's Name!!''), (''is_private'', JBool p)]) log"
proof (intro conjI)
  show "repoSlug_of (xs @ apostrophe # ys) = repoSlug_of (xs @ ys)"
    by (simp only: repoSlug_of_def replace_quotes_apostrophe)
  show "repoSlug_of (xs @ quotation_mark # ys) = repoSlug_of (xs @ ys)"
    by (simp only: repoSlug_of_def replace_quotes_quotation_mark)
  show "repoSlug_of ''My Repo's Name!!'' = ''my-repos-name''"
    by (rule repoSlug_of_example)
  show "create api workspace
         (JObj [(''name'', JStr ''My Repo's Name!!''), (''is_private'', JBool p)]) log
       = api_post_path api
           (case encodeURI workspace of
              Inl e \<Rightarrow> Inl e
            | Inr w \<Rightarrow> Inr (''repositories/'' @ w @ ''/my-repos-name''))
           (JObj [(''name'', JStr ''My Repo's Name!!''), (''is_private'', JBool p)]) log"
  proof -
    have path: "repo_path workspace (code_units ''my-repos-name'') [] =
        (case encodeURI workspace of
           Inl e \<Rightarrow> Inl e
         | Inr w \<Rightarrow> Inr (''repositories/'' @ w @ ''/my-repos-name''))"
      using repo_path_slug [of workspace "''My Repo's Name!!''" "[]"]
      unfolding repoSlug_of_example by (simp split: sum.splits)
    show ?thesis
      by (simp add: create_def lodash_isBoolean_def lodash_isString_def
            repoSlug_of_example path)
  qed
qed

theorem repoSlug_quotes_vanish_witness:
  "repoSlug_of (''Repo'' @ apostrophe # ''s'') = ''repos''
   \<and> repoSlug_of (''Repo'' @ quotation_mark # ''s'') = ''repos''
   \<and> create (\<lambda>r. r) (code_units ''ws'')
         (JObj [(''name'', JStr ''My Repo's Name!!''), (''is_private'', JBool True)]) []
       = (Inr (Post ''repositories/ws/my-repos-name''
                (JObj [(''name'', JStr ''My Repo's Name!!''), (''is_private'', JBool True)])),
          [Post ''repositories/ws/my-repos-name''
             (JObj [(''name'', JStr ''My Repo's Name!!''), (''is_private'', JBool True)])])"
proof -
  have slug: "repoSlug_of ''Repos'' = ''repos''" by code_simp
  have ws: "encodeURI (code_units ''ws'') = Inr ''ws''" by (simp add: encodeURI_unfold)
  from repoSlug_quotes_vanish [of "''Repo''" "''s''" "\<lambda>r. r" "code_units ''ws''" True "[]"]
    slug ws
  show ?thesis by (simp add: api_post_path_def api_post_def)
qed

text \<open>
  The slug the claim gives for that name, \<^verbatim>\<open>my-repo-s-name\<close>, is not the one derived: there
  the apostrophe would have become a dash.
\<close>

theorem repoSlug_example_counterexample:
  "repoSlug_of ''My Repo's Name!!'' \<noteq> ''my-repo-s-name''"
  by (simp add: repoSlug_of_example)

section \<open>The state filter of getPullRequests\<close>

lemma those_map_Some:
  "(\<forall>x \<in> set xs. f x \<noteq> None) \<Longrightarrow> \<exists>ys. those (map f xs) = Some ys"
  by (induction xs) auto

lemma array_join_defined:
  assumes "\<forall>x \<in> set xs. toString x \<noteq> None"
  shows "\<exists>v. array_join xs sep = Some v"
proof -
  from assms have "\<forall>x \<in> set xs.
      (if x = JUndefined \<or> x = JNull then Some [] else toString x) \<noteq> None"
    by auto
  from those_map_Some [OF this] show ?thesis
    by (auto simp: array_join_def)
qed

lemma array_join_OPEN: "array_join [states_OPEN states] sep = Some (OPEN_joined states)"
  by (simp add: array_join_def states_OPEN_def OPEN_joined_def split: option.splits)

lemma first_or_undefined_falsy:
  assumes "\<forall>x \<in> set xs. p x \<longrightarrow> \<not> truthy x"
  shows "\<not> truthy (first_or_undefined p xs)"
proof (cases "List.find p xs")
  case None
  then show ?thesis by (simp add: first_or_undefined_def)
next
  case (Some x)
  then have "x \<in> set xs" and "p x"
    by (auto simp: find_Some_iff)
  with assms Some show ?thesis by (simp add: first_or_undefined_def)
qed

lemma getPullRequests_array:
  "getPullRequests states api workspace repoSlug (JArr xs) log =
     (case array_join
             (if truthy (first_or_undefined (\<lambda>x. \<not> lodash_includes states x) xs)
              then [states_OPEN states] else xs) '','' of
        None \<Rightarrow> throw TypeError log
      | Some joined \<Rightarrow>
          api_get_path api (repo_path workspace repoSlug ''/pullrequests'')
            (Some [(''state'', joined)]) log)"
  by (simp add: getPullRequests_def lodash_isArray_def elements_def Let_def
        split: option.splits)

text \<open>
  The parts of the documented behaviour that the code has: an absent state gives OPEN, a
  sequence of valid tokens is kept in its order, and a sequence whose invalid elements are
  all truthy (and which has one) is replaced by OPEN.
\<close>

lemma getPullRequests_absent:
  assumes "state = JUndefined \<or> state = JNull"
  shows "getPullRequests states api workspace repoSlug state log =
     api_get_path api (repo_path workspace repoSlug ''/pullrequests'')
       (Some [(''state'', OPEN_joined states)]) log"
  using assms by (auto simp: getPullRequests_def elements_def array_join_OPEN)

lemma falsy_values:
  "\<not> truthy v \<longleftrightarrow> v = JUndefined \<or> v = JNull \<or> v = JBool False \<or> v = JStr []"
  by (cases v) auto

lemma valid_or_falsy_toString:
  assumes "lodash_includes states x \<or> \<not> truthy x"
  shows "toString x \<noteq> None"
  using assms by (cases x) (auto simp: lodash_includes_def)

lemma getPullRequests_valid_kept:
  assumes "\<forall>x \<in> set xs. lodash_includes states x"
  shows "\<exists>v. array_join xs '','' = Some v
     \<and> getPullRequests states api workspace repoSlug (JArr xs) log =
       api_get_path api (repo_path workspace repoSlug ''/pullrequests'')
         (Some [(''state'', v)]) log"
proof -
  from assms have "\<forall>x \<in> set xs. \<not> lodash_includes states x \<longrightarrow> \<not> truthy x"
    by blast
  from first_or_undefined_falsy [OF this]
  have f: "\<not> truthy (first_or_undefined (\<lambda>x. \<not> lodash_includes states x) xs)" .
  from assms have "\<forall>x \<in> set xs. toString x \<noteq> None"
    using valid_or_falsy_toString by blast
  from array_join_defined [OF this] obtain v where "array_join xs '','' = Some v" by blast
  with f show ?thesis by (simp add: getPullRequests_array)
qed

lemma getPullRequests_invalid_replaced:
  assumes "x \<in> set xs" and "\<not> lodash_includes states x"
    and "\<forall>y \<in> set xs. \<not> lodash_includes states y \<longrightarrow> truthy y"
  shows "getPullRequests states api workspace repoSlug (JArr xs) log =
     api_get_path api (repo_path workspace repoSlug ''/pullrequests'')
       (Some [(''state'', OPEN_joined states)]) log"
proof (cases "List.find (\<lambda>x. \<not> lodash_includes states x) xs")
  case None
  with assms(1,2) show ?thesis by (auto simp: find_None_iff)
next
  case (Some y)
  then have "y \<in> set xs" and "\<not> lodash_includes states y"
    by (auto simp: find_Some_iff)
  with assms(3) have "truthy y" by blast
  with Some show ?thesis
    by (simp add: getPullRequests_array first_or_undefined_def array_join_OPEN)
qed

text \<open>
  A string is searched character by character, so a token with a character that is not
  itself a state token is taken for an invalid state.
\<close>

lemma find_truthy_char:
  assumes "c \<in> set s" and "\<not> lodash_includes states (JStr [c])"
  shows "truthy (lodash_find (JStr s) (\<lambda>stateElement. \<not> lodash_includes states stateElement))"
proof (cases "List.find (\<lambda>x. \<not> lodash_includes states x) (map (\<lambda>c. JStr [c]) s)")
  case None
  with assms show ?thesis by (auto simp: find_None_iff)
next
  case (Some x)
  then have "x \<in> set (map (\<lambda>c. JStr [c]) s)" by (auto simp: find_Some_iff)
  then obtain d where "x = JStr [d]" by auto
  with Some show ?thesis by (simp add: first_or_undefined_def)
qed

lemma getPullRequests_single_token:
  assumes "c \<in> set s" and "\<not> lodash_includes states (JStr [c])"
  shows "getPullRequests states api workspace repoSlug (JStr s) log =
     api_get_path api (repo_path workspace repoSlug ''/pullrequests'')
       (Some [(''state'', OPEN_joined states)]) log"
  using find_truthy_char [OF assms]
  by (simp add: getPullRequests_def Let_def elements_def array_join_OPEN)

text \<open>
  Claim C1 says that the single token \<^verbatim>\<open>MERGED\<close> is wrapped and sent as the state. The
  code wraps it, but then searches the original argument for invalid states: the string is
  searched character by character, \<^verbatim>\<open>M\<close> is no state token, and the filter is replaced by
  OPEN. The call with the single token \<^verbatim>\<open>MERGED\<close> asks for the state \<^verbatim>\<open>OPEN\<close>.
\<close>

theorem getPullRequests_single_MERGED:
  "getPullRequests constants_pullRequest_states api workspace repoSlug (JStr ''MERGED'') log
   = api_get_path api (repo_path workspace repoSlug ''/pullrequests'')
       (Some [(''state'', ''OPEN'')]) log"
  by (simp add: getPullRequests_def constants_pullRequest_states_def lodash_isArray_def
        first_or_undefined_def lodash_includes_def states_OPEN_def elements_def array_join_def)

text \<open>
  Claim C3 says that a sequence with any token outside the enumeration is replaced by
  OPEN. The code tests the invalid element that was found for truthiness, so the invalid
  token \<^verbatim>\<open>""\<close> is not noticed: the sequence \<^verbatim>\<open>["MERGED", ""]\<close> is sent as \<^verbatim>\<open>MERGED,\<close>.
\<close>

theorem getPullRequests_empty_token_kept:
  "getPullRequests constants_pullRequest_states api workspace repoSlug
     (JArr [JStr ''MERGED'', JStr []]) log
   = api_get_path api (repo_path workspace repoSlug ''/pullrequests'')
       (Some [(''state'', ''MERGED,'')]) log"
  by (simp add: getPullRequests_def constants_pullRequest_states_def lodash_isArray_def
        first_or_undefined_def lodash_includes_def states_OPEN_def elements_def array_join_def)

text \<open>
  Claim C9. If every element of the state sequence that is outside the enumeration is
  falsy, the sequence is not replaced: it can be joined with a comma, and the join is the
  state query value.
\<close>

theorem getPullRequests_falsy_invalid_kept:
  assumes "\<forall>x \<in> set xs. \<not> lodash_includes states x \<longrightarrow> \<not> truthy x"
  shows "\<exists>v. array_join xs '','' = Some v
     \<and> getPullRequests states api workspace repoSlug (JArr xs) log =
       api_get_path api (repo_path workspace repoSlug ''/pullrequests'')
         (Some [(''state'', v)]) log"
proof -
  from first_or_undefined_falsy [OF assms]
  have f: "\<not> truthy (first_or_undefined (\<lambda>x. \<not> lodash_includes states x) xs)" .
  from assms have "\<forall>x \<in> set xs. toString x \<noteq> None"
    using valid_or_falsy_toString by blast
  from array_join_defined [OF this] obtain v where "array_join xs '','' = Some v" by blast
  with f show ?thesis by (simp add: getPullRequests_array)
qed

theorem getPullRequests_falsy_invalid_kept_witness:
  "list_all (\<lambda>x. lodash_includes constants_pullRequest_states x \<or> \<not> truthy x)
     [JStr [], JStr ''DECLINED'', JNull]
   \<and> array_join [JStr [], JStr ''DECLINED'', JNull] '','' = Some '',DECLINED,''
   \<and> getPullRequests constants_pullRequest_states (\<lambda>r. r) (code_units ''ws'') (code_units ''repo'')
       (JArr [JStr [], JStr ''DECLINED'', JNull]) [] =
     (Inr (Get ''repositories/ws/repo/pullrequests'' (Some [(''state'', '',DECLINED,'')])),
      [Get ''repositories/ws/repo/pullrequests'' (Some [(''state'', '',DECLINED,'')])])"
proof -
  have h: "\<forall>x \<in> set [JStr [], JStr ''DECLINED'', JNull].
      \<not> lodash_includes constants_pullRequest_states x \<longrightarrow> \<not> truthy x"
    by (simp add: lodash_includes_def constants_pullRequest_states_def)
  have l: "list_all (\<lambda>x. lodash_includes constants_pullRequest_states x \<or> \<not> truthy x)
     [JStr [], JStr ''DECLINED'', JNull]"
    by (simp add: lodash_includes_def constants_pullRequest_states_def)
  have j: "array_join [JStr [], JStr ''DECLINED'', JNull] '','' = Some '',DECLINED,''"
    by (simp add: array_join_def)
  have e: "repo_path (code_units ''ws'') (code_units ''repo'') ''/pullrequests''
           = Inr ''repositories/ws/repo/pullrequests''"
    by (simp add: repo_path_def encodeURI_unfold)
  from getPullRequests_falsy_invalid_kept
         [OF h, of "\<lambda>r. r" "code_units ''ws''" "code_units ''repo''" "[]"] l j e
  show ?thesis by (simp add: api_get_path_def api_get_def)
qed


section \<open>The checks of the arguments\<close>

lemma raises_InvalidArgument_simps:
  "raises_InvalidArgument (throw (InvalidArgument m) log)"
  "\<not> raises_InvalidArgument (throw TypeError log :: 'r outcome)"
  "\<not> raises_InvalidArgument (throw URIError log :: 'r outcome)"
  "\<not> raises_InvalidArgument (api_get api path params log)"
  "\<not> raises_InvalidArgument (api_post api path body log)"
  by (simp_all add: raises_InvalidArgument_def throw_def api_get_def api_post_def)

lemma raises_MissingLink_simps:
  "raises_MissingLink (throw (MissingLink m) log)"
  "\<not> raises_MissingLink (api_request_doPrebuiltSend api url log)"
  by (simp_all add: raises_MissingLink_def throw_def api_request_doPrebuiltSend_def)

lemma raises_simps:
  "raises (throw e log)"
  "\<not> raises (api_get api path params log)"
  "\<not> raises (api_post api path body log)"
  by (simp_all add: raises_def throw_def api_get_def api_post_def)

lemma snd_throw: "snd (throw e log) = log"
  by (simp add: throw_def)

text \<open>A path that cannot be built gives a URIError and no call.\<close>

lemma path_cases:
  "(path = Inl URIError) \<or> (\<exists>p. path = Inr p)" if "path = repo_path workspace repoSlug rest"
  using that encodeURI_result [of workspace] encodeURI_result [of repoSlug]
  by (auto simp: repo_path_def split: sum.splits)


lemma api_post_path_cases:
  "api_post_path api (repo_path workspace repoSlug rest) body log = throw URIError log
   \<or> (\<exists>p. repo_path workspace repoSlug rest = Inr p
        \<and> api_post_path api (repo_path workspace repoSlug rest) body log
          = api_post api p body log)"
  using path_cases [OF refl, of workspace repoSlug rest]
  by (auto simp: api_post_path_def)


lemma api_post_path_raises:
  "raises (api_post_path api path body log) \<Longrightarrow> snd (api_post_path api path body log) = log"
  by (cases path) (simp_all add: api_post_path_def raises_simps snd_throw)


lemma api_post_path_not_InvalidArgument:
  "\<not> raises_InvalidArgument (api_post_path api (repo_path workspace repoSlug rest) body log)"
  using api_post_path_cases [of api workspace repoSlug rest body log]
  by (auto simp: raises_InvalidArgument_simps)

lemma array_join_strings:
  "array_join (map (\<lambda>x. JStr (f x)) xs) sep = Some (join_strings sep (map f xs))"
proof -
  have "those (map (\<lambda>x. Some (f x)) xs) = Some (map f xs)"
    by (induction xs) simp_all
  then show ?thesis by (simp add: array_join_def comp_def)
qed

text \<open>
  The three ways \<^verbatim>\<open>getPullRequestsWithFields\<close> ends: the TypeError of a \<^verbatim>\<open>null\<close> options
  argument, the InvalidArgument of the fields check, and what follows the check.
\<close>

lemma getPullRequestsWithFields_null:
  "getPullRequestsWithFields states api workspace repoSlug JNull log = throw TypeError log"
  by (simp add: getPullRequestsWithFields_def)

lemma getPullRequestsWithFields_invalid:
  assumes "options \<noteq> JNull"
    and "\<not> lodash_isArray (read_prop options ''fields'')
         \<or> elements (read_prop options ''fields'') = []"
  shows "\<exists>m. getPullRequestsWithFields states api workspace repoSlug options log
              = throw (InvalidArgument m) log"
  using assms by (auto simp: getPullRequestsWithFields_def Let_def)

lemma those_map_map_option:
  "those (map (\<lambda>x. map_option g (f x)) xs) = map_option (map g) (those (map f xs))"
proof (induction xs)
  case Nil
  then show ?case by simp
next
  case (Cons x xs)
  then show ?case
    by (cases "f x"; cases "those (map f xs)") simp_all
qed

lemma plus_prefix: "(@) ''+'' = (#) CHR ''+''"
  by (simp add: fun_eq_iff)

lemma getPullRequests_state_query:
  "getPullRequests states api workspace repoSlug state log =
     (case state_query states state of
        None \<Rightarrow> throw TypeError log
      | Some joined \<Rightarrow>
          api_get_path api (repo_path workspace repoSlug ''/pullrequests'')
            (Some [(''state'', joined)]) log)"
  by (simp add: getPullRequests_def state_query_def Let_def split: option.splits)

lemma getPullRequestsWithFields_state_query:
  assumes "read_prop options ''fields'' = JArr fs" and "fs \<noteq> []"
  shows "getPullRequestsWithFields states api workspace repoSlug options log =
     (case state_query states (read_prop options ''state'') of
        None \<Rightarrow> throw TypeError log
      | Some joined \<Rightarrow>
          (case those (map toString fs) of
             None \<Rightarrow> throw TypeError log
           | Some paths \<Rightarrow>
               api_get_path api (repo_path workspace repoSlug ''/pullrequests'')
                 (Some [(''state'', joined),
                        (''fields'', join_strings '','' (map (\<lambda>path. ''+'' @ path) paths))])
                 log))"
proof -
  from assms(1) have "options \<noteq> JNull" by auto
  with assms show ?thesis
    by (cases "those (map toString fs)")
       (simp_all add: getPullRequestsWithFields_def state_query_def Let_def lodash_isArray_def
          elements_def those_map_map_option array_join_strings plus_prefix
          split: option.splits)
qed


lemma getPullRequestsWithFields_valid_cases:
  assumes "read_prop options ''fields'' = JArr fs" and "fs \<noteq> []"
  shows "getPullRequestsWithFields states api workspace repoSlug options log = throw TypeError log
     \<or> (\<exists>params. getPullRequestsWithFields states api workspace repoSlug options log
           = api_get_path api (repo_path workspace repoSlug ''/pullrequests'') params log)"
  unfolding getPullRequestsWithFields_state_query [OF assms]
  by (cases "state_query states (read_prop options ''state'')";
      cases "those (map toString fs)") auto

lemma fields_valid:
  assumes "\<not> (\<not> lodash_isArray (read_prop options ''fields'')
              \<or> elements (read_prop options ''fields'') = [])"
  shows "\<exists>fs. read_prop options ''fields'' = JArr fs \<and> fs \<noteq> []"
  using assms by (auto simp: lodash_isArray_def elements_def split: jsval.splits)






lemma repo_path_ws_repo:
  "repo_path (code_units ''ws'') (code_units ''repo'') rest = Inr (''repositories/ws/repo'' @ rest)"
  by (simp add: repo_path_def encodeURI_unfold)



lemma create_raises:
  "raises_InvalidArgument (create api workspace repo log)
   \<longleftrightarrow> \<not> truthy repo \<or> \<not> lodash_isString (read_prop repo ''name'')
         \<or> \<not> lodash_isBoolean (read_prop repo ''is_private'')"
  by (auto simp: create_def raises_InvalidArgument_simps lodash_isString_def Let_def
        api_post_path_not_InvalidArgument split: jsval.splits)

lemma create_no_call:
  "raises (create api workspace repo log) \<Longrightarrow> snd (create api workspace repo log) = log"
  by (auto simp: create_def snd_throw Let_def api_post_path_raises
        split: jsval.splits if_splits)

lemma raises_InvalidArgument_raises: "raises_InvalidArgument out \<Longrightarrow> raises out"
  by (auto simp: raises_InvalidArgument_def raises_def split: sum.splits)

lemma create_posts:
  assumes "truthy repo" and "read_prop repo ''name'' = JStr name"
    and "lodash_isBoolean (read_prop repo ''is_private'')"
  shows "create api workspace repo log
         = api_post_path api
             (case encodeURI workspace of
                Inl e \<Rightarrow> Inl e
              | Inr w \<Rightarrow> Inr (''repositories/'' @ w @ ''/'' @ repoSlug_of name))
             repo log"
  using assms repo_path_slug [of workspace name "[]"]
  by (cases "encodeURI workspace") (simp_all add: create_def lodash_isString_def)

text \<open>
  Claim C4, as the code has it. \<^verbatim>\<open>create\<close> raises InvalidArgument exactly if the repo is
  falsy, its name is no string, or its privacy flag is no boolean; whatever it raises, the
  transport is not called. Any string is accepted as the name, the empty one too, and the
  repo is posted to the path of the encoded workspace and the derived slug (unless the
  workspace cannot be encoded).
\<close>

theorem create_checks_repo:
  "(raises_InvalidArgument (create api workspace repo log)
      \<longleftrightarrow> \<not> truthy repo \<or> \<not> lodash_isString (read_prop repo ''name'')
            \<or> \<not> lodash_isBoolean (read_prop repo ''is_private''))
   \<and> (raises_InvalidArgument (create api workspace repo log)
        \<longrightarrow> snd (create api workspace repo log) = log)
   \<and> (raises (create api workspace repo log)
        \<longrightarrow> snd (create api workspace repo log) = log)
   \<and> (\<forall>name. truthy repo \<and> read_prop repo ''name'' = JStr name
               \<and> lodash_isBoolean (read_prop repo ''is_private'') \<longrightarrow>
         create api workspace repo log
         = api_post_path api
             (case encodeURI workspace of
                Inl e \<Rightarrow> Inl e
              | Inr w \<Rightarrow> Inr (''repositories/'' @ w @ ''/'' @ repoSlug_of name))
             repo log)"
proof (intro conjI allI impI)
  show "raises_InvalidArgument (create api workspace repo log)
      \<longleftrightarrow> \<not> truthy repo \<or> \<not> lodash_isString (read_prop repo ''name'')
            \<or> \<not> lodash_isBoolean (read_prop repo ''is_private'')"
    by (rule create_raises)
next
  assume "raises_InvalidArgument (create api workspace repo log)"
  then have "raises (create api workspace repo log)"
    by (rule raises_InvalidArgument_raises)
  then show "snd (create api workspace repo log) = log"
    by (rule create_no_call)
next
  assume "raises (create api workspace repo log)"
  then show "snd (create api workspace repo log) = log"
    by (rule create_no_call)
next
  fix name
  assume "truthy repo \<and> read_prop repo ''name'' = JStr name
          \<and> lodash_isBoolean (read_prop repo ''is_private'')"
  then show "create api workspace repo log
         = api_post_path api
             (case encodeURI workspace of
                Inl e \<Rightarrow> Inl e
              | Inr w \<Rightarrow> Inr (''repositories/'' @ w @ ''/'' @ repoSlug_of name))
             repo log"
    using create_posts by blast
qed

theorem create_checks_repo_witness:
  "raises_InvalidArgument (create (\<lambda>r. r) (code_units ''ws'') (JObj [(''name'', JStr ''x'')]) [])
   \<and> snd (create (\<lambda>r. r) (code_units ''ws'') (JObj [(''name'', JStr ''x'')]) []) = []
   \<and> create (\<lambda>r. r) (code_units ''ws'')
        (JObj [(''name'', JStr ''x''), (''is_private'', JBool False)]) []
     = (Inr (Post ''repositories/ws/x''
               (JObj [(''name'', JStr ''x''), (''is_private'', JBool False)])),
        [Post ''repositories/ws/x''
           (JObj [(''name'', JStr ''x''), (''is_private'', JBool False)])])"
proof -
  have ws: "encodeURI (code_units ''ws'') = Inr ''ws''" by (simp add: encodeURI_unfold)
  have slug: "repoSlug_of ''x'' = ''x''" by code_simp
  from create_checks_repo [of "\<lambda>r. r" "code_units ''ws''" "JObj [(''name'', JStr ''x'')]" "[]"]
    create_checks_repo [of "\<lambda>r. r" "code_units ''ws''"
      "JObj [(''name'', JStr ''x''), (''is_private'', JBool False)]" "[]"]
    ws slug
  show ?thesis
    by (simp add: lodash_isBoolean_def lodash_isString_def api_post_path_def api_post_def)
qed

text \<open>
  With the empty string as the name the claim asks for InvalidArgument; the code posts the
  repo to a path with an empty slug.
\<close>

theorem create_empty_name_counterexample:
  "create (\<lambda>r. r) (code_units ''ws'')
     (JObj [(''name'', JStr []), (''is_private'', JBool True)]) []
   = (Inr (Post ''repositories/ws/'' (JObj [(''name'', JStr []), (''is_private'', JBool True)])),
      [Post ''repositories/ws/'' (JObj [(''name'', JStr []), (''is_private'', JBool True)])])"
proof -
  have "repoSlug_of [] = []" by code_simp
  then show ?thesis
    by (simp add: create_def lodash_isBoolean_def lodash_isString_def api_post_path_def
          api_post_def repo_path_def encodeURI_unfold)
qed


section \<open>The forks link of a response\<close>

text \<open>
  Claim C8, as the code has it. \<^verbatim>\<open>getForksFromResponse\<close> reads \<^verbatim>\<open>links.forks.href\<close> of the
  response body. It raises MissingLink exactly if the value read is falsy, that is absent,
  \<^verbatim>\<open>null\<close>, \<^verbatim>\<open>false\<close> or the empty string, and then the transport is not called.
  Otherwise the value is handed to the prebuilt send of the transport, whose result is
  returned.
\<close>

theorem getForksFromResponse_link:
  "(raises_MissingLink (getForksFromResponse extractBody api response log)
      \<longleftrightarrow> \<not> truthy (lodash_get (extractBody response) [''links'', ''forks'', ''href'']))
   \<and> (raises_MissingLink (getForksFromResponse extractBody api response log)
        \<longrightarrow> snd (getForksFromResponse extractBody api response log) = log)
   \<and> (truthy (lodash_get (extractBody response) [''links'', ''forks'', ''href''])
        \<longrightarrow> getForksFromResponse extractBody api response log
            = api_request_doPrebuiltSend api
                (lodash_get (extractBody response) [''links'', ''forks'', ''href'']) log)
   \<and> (\<not> truthy (lodash_get (extractBody response) [''links'', ''forks'', ''href''])
        \<longleftrightarrow> lodash_get (extractBody response) [''links'', ''forks'', ''href'']
              \<in> {JUndefined, JNull, JBool False, JStr []})"
  by (simp add: getForksFromResponse_def Let_def raises_MissingLink_simps snd_throw falsy_values)

theorem getForksFromResponse_link_witness:
  "truthy (lodash_get
             (extractResponseBody (JObj [(''links'', JObj [(''forks'', JObj [(''href'', JStr ''X'')])])]))
             [''links'', ''forks'', ''href''])
   \<and> getForksFromResponse extractResponseBody (\<lambda>r. r)
       (JObj [(''links'', JObj [(''forks'', JObj [(''href'', JStr ''X'')])])]) []
     = (Inr (PrebuiltSend (JStr ''X'')), [PrebuiltSend (JStr ''X'')])
   \<and> raises_MissingLink (getForksFromResponse extractResponseBody (\<lambda>r. r) (JObj []) [])
   \<and> snd (getForksFromResponse extractResponseBody (\<lambda>r. r) (JObj []) []) = []"
  using getForksFromResponse_link [of extractResponseBody "\<lambda>r. r"
          "JObj [(''links'', JObj [(''forks'', JObj [(''href'', JStr ''X'')])])]" "[]"]
    getForksFromResponse_link [of extractResponseBody "\<lambda>r. r" "JObj []" "[]"]
  by (simp add: extractResponseBody_def api_request_doPrebuiltSend_def)

text \<open>
  A body whose \<^verbatim>\<open>links.forks.href\<close> is present and is the empty string: the field is not
  absent, and MissingLink is raised all the same.
\<close>

theorem getForksFromResponse_empty_href_counterexample:
  "lodash_get
     (extractResponseBody (JObj [(''links'', JObj [(''forks'', JObj [(''href'', JStr [])])])]))
     [''links'', ''forks'', ''href''] = JStr []
   \<and> raises_MissingLink
        (getForksFromResponse extractResponseBody (\<lambda>r. r)
           (JObj [(''links'', JObj [(''forks'', JObj [(''href'', JStr [])])])]) [])"
  by (simp add: getForksFromResponse_def extractResponseBody_def raises_MissingLink_simps)


section \<open>The two copies of the state normalization\<close>

text \<open>
  Claim C10. Let the fields be a non-empty array whose elements can be converted to
  strings, so that \<^verbatim>\<open>getPullRequestsWithFields\<close> gets to the state. Then for every state
  argument both operations hand the same state query value to the transport, with the
  same path, or both throw the TypeError of a state that cannot be joined.
\<close>

theorem state_normalization_same:
  assumes "read_prop options ''fields'' = JArr fs" and "fs \<noteq> []"
    and "\<forall>f \<in> set fs. toString f \<noteq> None"
  shows "(\<exists>v f.
            getPullRequests states api workspace repoSlug (read_prop options ''state'') log
            = api_get_path api (repo_path workspace repoSlug ''/pullrequests'')
                (Some [(''state'', v)]) log
          \<and> getPullRequestsWithFields states api workspace repoSlug options log
            = api_get_path api (repo_path workspace repoSlug ''/pullrequests'')
                (Some [(''state'', v), (''fields'', f)]) log)
         \<or> (getPullRequests states api workspace repoSlug (read_prop options ''state'') log
              = throw TypeError log
            \<and> getPullRequestsWithFields states api workspace repoSlug options log
              = throw TypeError log)"
proof -
  from those_map_Some [OF assms(3)] obtain paths where
    paths: "those (map toString fs) = Some paths" by blast
  show ?thesis
    unfolding getPullRequests_state_query
      getPullRequestsWithFields_state_query [OF assms(1,2)] paths
    by (cases "state_query states (read_prop options ''state'')") auto
qed

theorem state_normalization_same_witness:
  "getPullRequests constants_pullRequest_states (\<lambda>r. r) (code_units ''ws'') (code_units ''repo'')
     (JArr [JStr ''OPEN'', JStr ''MERGED'']) []
   = (Inr (Get ''repositories/ws/repo/pullrequests'' (Some [(''state'', ''OPEN,MERGED'')])),
      [Get ''repositories/ws/repo/pullrequests'' (Some [(''state'', ''OPEN,MERGED'')])])
   \<and> getPullRequestsWithFields constants_pullRequest_states (\<lambda>r. r)
       (code_units ''ws'') (code_units ''repo'')
       (JObj [(''state'', JArr [JStr ''OPEN'', JStr ''MERGED'']),
              (''fields'', JArr [JStr ''values.id''])]) []
     = (Inr (Get ''repositories/ws/repo/pullrequests''
               (Some [(''state'', ''OPEN,MERGED''), (''fields'', ''+values.id'')])),
        [Get ''repositories/ws/repo/pullrequests''
           (Some [(''state'', ''OPEN,MERGED''), (''fields'', ''+values.id'')])])
   \<and> getPullRequests constants_pullRequest_states (\<lambda>r. r) (code_units ''ws'') (code_units ''repo'')
       (JObj [(''toString'', JStr ''OPEN'')]) []
     = (Inl TypeError, [])
   \<and> getPullRequestsWithFields constants_pullRequest_states (\<lambda>r. r)
       (code_units ''ws'') (code_units ''repo'')
       (JObj [(''state'', JObj [(''toString'', JStr ''OPEN'')]),
              (''fields'', JArr [JStr ''values.id''])]) []
     = (Inl TypeError, [])"
proof -
  let ?seq = "JObj [(''state'', JArr [JStr ''OPEN'', JStr ''MERGED'']),
                    (''fields'', JArr [JStr ''values.id''])]"
  let ?obj = "JObj [(''state'', JObj [(''toString'', JStr ''OPEN'')]),
                    (''fields'', JArr [JStr ''values.id''])]"
  have f: "read_prop ?seq ''fields'' = JArr [JStr ''values.id'']"
          "read_prop ?obj ''fields'' = JArr [JStr ''values.id'']"
    by simp_all
  have n: "[JStr ''values.id''] \<noteq> []" by simp
  have t: "\<forall>f \<in> set [JStr ''values.id'']. toString f \<noteq> None" by simp
  have q: "state_query constants_pullRequest_states (JArr [JStr ''OPEN'', JStr ''MERGED''])
           = Some ''OPEN,MERGED''"
          "state_query constants_pullRequest_states (JObj [(''toString'', JStr ''OPEN'')])
           = None"
    by (simp_all add: state_query_def constants_pullRequest_states_def lodash_includes_def
          lodash_isArray_def first_or_undefined_def elements_def array_join_def)
  have g: "getPullRequests constants_pullRequest_states (\<lambda>r. r)
             (code_units ''ws'') (code_units ''repo'') (JArr [JStr ''OPEN'', JStr ''MERGED'']) []
           = (Inr (Get ''repositories/ws/repo/pullrequests''
                     (Some [(''state'', ''OPEN,MERGED'')])),
              [Get ''repositories/ws/repo/pullrequests'' (Some [(''state'', ''OPEN,MERGED'')])])"
          "getPullRequests constants_pullRequest_states (\<lambda>r. r)
             (code_units ''ws'') (code_units ''repo'') (JObj [(''toString'', JStr ''OPEN'')]) []
           = (Inl TypeError, [])"
    by (simp_all add: getPullRequests_state_query q repo_path_ws_repo api_get_path_def
          api_get_def throw_def)
  from state_normalization_same
         [OF f(1) n t, of constants_pullRequest_states "\<lambda>r. r" "code_units ''ws''"
            "code_units ''repo''" "[]"]
  have w1: "getPullRequestsWithFields constants_pullRequest_states (\<lambda>r. r)
       (code_units ''ws'') (code_units ''repo'') ?seq []
     = (Inr (Get ''repositories/ws/repo/pullrequests''
               (Some [(''state'', ''OPEN,MERGED''), (''fields'', ''+values.id'')])),
        [Get ''repositories/ws/repo/pullrequests''
           (Some [(''state'', ''OPEN,MERGED''), (''fields'', ''+values.id'')])])"
    by (simp add: getPullRequestsWithFields_state_query [OF f(1) n] q repo_path_ws_repo
          api_get_path_def api_get_def)
  from state_normalization_same
         [OF f(2) n t, of constants_pullRequest_states "\<lambda>r. r" "code_units ''ws''"
            "code_units ''repo''" "[]"]
  have w2: "getPullRequestsWithFields constants_pullRequest_states (\<lambda>r. r)
       (code_units ''ws'') (code_units ''repo'') ?obj []
     = (Inl TypeError, [])"
    by (simp add: g repo_path_ws_repo api_get_path_def api_get_def throw_def)
  from g w1 w2 show ?thesis by blast
qed

section \<open>The identifiers in the request path\<close>

lemma kept_chars_ascii:
  "c \<in> set (uriReserved @ uriUnescaped @ ''#'') \<Longrightarrow> (of_char c :: nat) < 128"
  unfolding uriReserved_def uriUnescaped_def by simp (elim disjE; simp)

lemma encodeURI_keeps_code_unit:
  "encodeURI_keeps (of_nat (of_char c)) \<longleftrightarrow> c \<in> set (uriReserved @ uriUnescaped @ ''#'')"
  using kept_chars_ascii [of c]
  by (auto simp only: encodeURI_keeps_def unat_code_unit char_of_char)

lemma repo_path_URIError:
  "repo_path workspace repoSlug rest = Inl URIError
   \<longleftrightarrow> lone_surrogate workspace \<or> lone_surrogate repoSlug"
  using encodeURI_lone_surrogate [of workspace URIError]
    encodeURI_lone_surrogate [of repoSlug URIError]
    encodeURI_result [of workspace] encodeURI_result [of repoSlug]
  by (auto simp: repo_path_def split: sum.splits)

lemma repo_path_encoded:
  "encodeURI workspace = Inr w \<Longrightarrow> encodeURI repoSlug = Inr s \<Longrightarrow>
   repo_path workspace repoSlug rest = Inr (''repositories/'' @ w @ ''/'' @ s @ rest)"
  by (simp add: repo_path_def)

lemma workspace_path_URIError:
  "workspace_path workspace = Inl URIError \<longleftrightarrow> lone_surrogate workspace"
  using encodeURI_lone_surrogate [of workspace URIError] encodeURI_result [of workspace]
  by (auto simp: workspace_path_def split: sum.splits)

lemma workspace_path_encoded:
  "encodeURI workspace = Inr w \<Longrightarrow> workspace_path workspace = Inr (''repositories/'' @ w)"
  by (simp add: workspace_path_def)

lemma encodeURI_defined: "(\<exists>t. encodeURI s = Inr t) \<longleftrightarrow> \<not> lone_surrogate s"
  using encodeURI_lone_surrogate [of s URIError] encodeURI_result [of s] by auto

lemma percent_escape_hex:
  "percent_escape octet =
     [CHR ''%'', ''0123456789ABCDEF'' ! (octet div 16 mod 16),
      ''0123456789ABCDEF'' ! (octet mod 16)]"
  by (simp add: percent_escape_def hex_digit_def)

lemma percent_escapes_1: "cp < 0x80 \<Longrightarrow> percent_escapes cp = percent_escape cp"
  by (simp add: percent_escapes_def utf8_octets_def)

lemma percent_escapes_2:
  "0x80 \<le> cp \<Longrightarrow> cp < 0x800 \<Longrightarrow>
   percent_escapes cp
   = percent_escape (0xC0 + cp div 0x40) @ percent_escape (0x80 + cp mod 0x40)"
  by (simp add: percent_escapes_def utf8_octets_def)

lemma percent_escapes_3:
  "0x800 \<le> cp \<Longrightarrow> cp < 0x10000 \<Longrightarrow>
   percent_escapes cp
   = percent_escape (0xE0 + cp div 0x1000) @ percent_escape (0x80 + cp div 0x40 mod 0x40)
     @ percent_escape (0x80 + cp mod 0x40)"
  by (simp add: percent_escapes_def utf8_octets_def)

lemma percent_escapes_4:
  "0x10000 \<le> cp \<Longrightarrow>
   percent_escapes cp
   = percent_escape (0xF0 + cp div 0x40000) @ percent_escape (0x80 + cp div 0x1000 mod 0x40)
     @ percent_escape (0x80 + cp div 0x40 mod 0x40) @ percent_escape (0x80 + cp mod 0x40)"
  by (simp add: percent_escapes_def utf8_octets_def)

lemma create_path:
  "(\<exists>e. create api workspace repo log = throw e log)
   \<or> (\<exists>name. read_prop repo ''name'' = JStr name
        \<and> create api workspace repo log
          = api_post_path api (repo_path workspace (code_units (repoSlug_of name)) [])
              repo log)"
  by (cases "read_prop repo ''name''") (auto simp: create_def lodash_isString_def)

lemma getPullRequests_path:
  "getPullRequests states api workspace repoSlug state log = throw TypeError log
   \<or> (\<exists>params. getPullRequests states api workspace repoSlug state log
         = api_get_path api (repo_path workspace repoSlug ''/pullrequests'') params log)"
  unfolding getPullRequests_state_query
  by (cases "state_query states state") auto

lemma getPullRequestsWithFields_path:
  "(\<exists>e. getPullRequestsWithFields states api workspace repoSlug options log = throw e log)
   \<or> (\<exists>params. getPullRequestsWithFields states api workspace repoSlug options log
         = api_get_path api (repo_path workspace repoSlug ''/pullrequests'') params log)"
proof (cases "options = JNull")
  case True
  then show ?thesis using getPullRequestsWithFields_null by blast
next
  case False
  show ?thesis
  proof (cases "\<not> lodash_isArray (read_prop options ''fields'')
                \<or> elements (read_prop options ''fields'') = []")
    case True
    from getPullRequestsWithFields_invalid [OF False True, of states api workspace repoSlug log]
    show ?thesis by blast
  next
    case valid: False
    then obtain fs where fs: "read_prop options ''fields'' = JArr fs" "fs \<noteq> []"
      using fields_valid by blast
    from getPullRequestsWithFields_valid_cases [OF fs, of states api workspace repoSlug log]
    show ?thesis by blast
  qed
qed

text \<open>
  Claim C7, as the code has it. Every operation with a workspace or a repository
  identifier places the \<^verbatim>\<open>encodeURI\<close> of the identifier in the path (\<^verbatim>\<open>create\<close> that of the
  workspace and of the slug it derives). \<^verbatim>\<open>encodeURI\<close> goes through the identifier from the
  left: a reserved or unreserved character or \<^verbatim>\<open>#\<close> is kept, any other code unit or
  surrogate pair is replaced by the percent-escapes of its code point, and the result
  consists of those characters and the \<^verbatim>\<open>%\<close> of the escapes only. An identifier with a lone
  surrogate cannot be encoded: the path throws a URIError and the transport is not
  called.
\<close>

theorem paths_use_encodeURI:
  "(encodeURI s = Inl URIError \<longleftrightarrow> lone_surrogate s)
   \<and> ((\<exists>t. encodeURI s = Inr t) \<longleftrightarrow> \<not> lone_surrogate s)
   \<and> (\<forall>t. encodeURI s = Inr t \<longrightarrow> set t \<subseteq> set (uriReserved @ uriUnescaped @ ''#%''))
   \<and> (encodeURI_keeps u \<longrightarrow>
        encodeURI (u # us) = followed_by [char_of (unat u)] (encodeURI us))
   \<and> (\<not> encodeURI_keeps u \<and> \<not> leading_surrogate u \<and> \<not> trailing_surrogate u \<longrightarrow>
        encodeURI (u # us) = followed_by (percent_escapes (unat u)) (encodeURI us))
   \<and> (leading_surrogate u \<and> trailing_surrogate v \<longrightarrow>
        encodeURI (u # v # vs)
        = followed_by (percent_escapes (pair_code_point u v)) (encodeURI vs))
   \<and> (encodeURI_keeps (of_nat (of_char c))
        \<longleftrightarrow> c \<in> set (uriReserved @ uriUnescaped @ ''#''))
   \<and> percent_escape octet
       = [CHR ''%'', ''0123456789ABCDEF'' ! (octet div 16 mod 16),
          ''0123456789ABCDEF'' ! (octet mod 16)]
   \<and> (cp < 0x80 \<longrightarrow> percent_escapes cp = percent_escape cp)
   \<and> (0x80 \<le> cp \<and> cp < 0x800 \<longrightarrow>
        percent_escapes cp
        = percent_escape (0xC0 + cp div 0x40) @ percent_escape (0x80 + cp mod 0x40))
   \<and> (0x800 \<le> cp \<and> cp < 0x10000 \<longrightarrow>
        percent_escapes cp
        = percent_escape (0xE0 + cp div 0x1000)
          @ percent_escape (0x80 + cp div 0x40 mod 0x40)
          @ percent_escape (0x80 + cp mod 0x40))
   \<and> (0x10000 \<le> cp \<longrightarrow>
        percent_escapes cp
        = percent_escape (0xF0 + cp div 0x40000)
          @ percent_escape (0x80 + cp div 0x1000 mod 0x40)
          @ percent_escape (0x80 + cp div 0x40 mod 0x40)
          @ percent_escape (0x80 + cp mod 0x40))
   \<and> encodeURI (code_units ''my team'') = Inr ''my%20team''
   \<and> encodeURI (code_units ''a/b c'') = Inr ''a/b%20c''
   \<and> encodeURI [0xE9] = Inr ''%C3%A9''
   \<and> encodeURI [0x20AC] = Inr ''%E2%82%AC''
   \<and> encodeURI [0xD83D, 0xDE00] = Inr ''%F0%9F%98%80''
   \<and> encodeURI [0x61, 0xD83D] = Inl URIError
   \<and> (repo_path workspace repoSlug rest = Inl URIError
        \<longleftrightarrow> lone_surrogate workspace \<or> lone_surrogate repoSlug)
   \<and> (\<forall>w r. encodeURI workspace = Inr w \<and> encodeURI repoSlug = Inr r \<longrightarrow>
         repo_path workspace repoSlug rest = Inr (''repositories/'' @ w @ ''/'' @ r @ rest))
   \<and> (workspace_path workspace = Inl URIError \<longleftrightarrow> lone_surrogate workspace)
   \<and> (\<forall>w. encodeURI workspace = Inr w \<longrightarrow>
         workspace_path workspace = Inr (''repositories/'' @ w))
   \<and> api_get_path api (Inl e) params log = throw e log
   \<and> api_get_path api (Inr p) params log = api_get api p params log
   \<and> api_post_path api (Inl e) body log = throw e log
   \<and> api_post_path api (Inr p) body log = api_post api p body log
   \<and> ((\<exists>e. create api workspace repo log = throw e log)
       \<or> (\<exists>name. read_prop repo ''name'' = JStr name
            \<and> create api workspace repo log
              = api_post_path api (repo_path workspace (code_units (repoSlug_of name)) [])
                  repo log))
   \<and> createPullRequest api workspace repoSlug pullRequest log
       = api_post_path api (repo_path workspace repoSlug ''/pullrequests'') pullRequest log
   \<and> get api workspace repoSlug log
       = api_get_path api (repo_path workspace repoSlug []) None log
   \<and> getBranches api workspace repoSlug log
       = api_get_path api (repo_path workspace repoSlug ''/refs/branches'') None log
   \<and> getCommit api workspace repoSlug sha log
       = api_get_path api (repo_path workspace repoSlug (''/commit/'' @ sha)) None log
   \<and> (getPullRequests states api workspace repoSlug state log = throw TypeError log
       \<or> (\<exists>params. getPullRequests states api workspace repoSlug state log
             = api_get_path api (repo_path workspace repoSlug ''/pullrequests'') params log))
   \<and> ((\<exists>e. getPullRequestsWithFields states api workspace repoSlug options log = throw e log)
       \<or> (\<exists>params. getPullRequestsWithFields states api workspace repoSlug options log
             = api_get_path api (repo_path workspace repoSlug ''/pullrequests'') params log))
   \<and> getByWorkspace api workspace log
       = api_get_path api (workspace_path workspace) None log
   \<and> getForks api workspace repoSlug log
       = api_get_path api (repo_path workspace repoSlug ''/forks'') None log"
proof (intro conjI)
  show "encodeURI s = Inl URIError \<longleftrightarrow> lone_surrogate s"
    by (simp add: encodeURI_lone_surrogate)
  show "(\<exists>t. encodeURI s = Inr t) \<longleftrightarrow> \<not> lone_surrogate s"
    by (rule encodeURI_defined)
  show "\<forall>t. encodeURI s = Inr t \<longrightarrow> set t \<subseteq> set (uriReserved @ uriUnescaped @ ''#%'')"
    using encodeURI_set by blast
  show "encodeURI_keeps u \<longrightarrow>
        encodeURI (u # us) = followed_by [char_of (unat u)] (encodeURI us)"
    using encodeURI_kept_Cons by blast
  show "\<not> encodeURI_keeps u \<and> \<not> leading_surrogate u \<and> \<not> trailing_surrogate u \<longrightarrow>
        encodeURI (u # us) = followed_by (percent_escapes (unat u)) (encodeURI us)"
    using encodeURI_escaped_Cons by blast
  show "leading_surrogate u \<and> trailing_surrogate v \<longrightarrow>
        encodeURI (u # v # vs)
        = followed_by (percent_escapes (pair_code_point u v)) (encodeURI vs)"
    using encodeURI_pair_Cons by blast
  show "encodeURI_keeps (of_nat (of_char c))
        \<longleftrightarrow> c \<in> set (uriReserved @ uriUnescaped @ ''#'')"
    by (rule encodeURI_keeps_code_unit)
  show "percent_escape octet
       = [CHR ''%'', ''0123456789ABCDEF'' ! (octet div 16 mod 16),
          ''0123456789ABCDEF'' ! (octet mod 16)]"
    by (rule percent_escape_hex)
  show "cp < 0x80 \<longrightarrow> percent_escapes cp = percent_escape cp"
    using percent_escapes_1 by blast
  show "0x80 \<le> cp \<and> cp < 0x800 \<longrightarrow>
        percent_escapes cp
        = percent_escape (0xC0 + cp div 0x40) @ percent_escape (0x80 + cp mod 0x40)"
    using percent_escapes_2 by blast
  show "0x800 \<le> cp \<and> cp < 0x10000 \<longrightarrow>
        percent_escapes cp
        = percent_escape (0xE0 + cp div 0x1000)
          @ percent_escape (0x80 + cp div 0x40 mod 0x40)
          @ percent_escape (0x80 + cp mod 0x40)"
    using percent_escapes_3 by blast
  show "0x10000 \<le> cp \<longrightarrow>
        percent_escapes cp
        = percent_escape (0xF0 + cp div 0x40000)
          @ percent_escape (0x80 + cp div 0x1000 mod 0x40)
          @ percent_escape (0x80 + cp div 0x40 mod 0x40)
          @ percent_escape (0x80 + cp mod 0x40)"
    using percent_escapes_4 by blast
  show "encodeURI (code_units ''my team'') = Inr ''my%20team''"
    by (rule encodeURI_example_team)
  show "encodeURI (code_units ''a/b c'') = Inr ''a/b%20c''"
    by (rule encodeURI_example_slash)
  show "encodeURI [0xE9] = Inr ''%C3%A9''"
    by (rule encodeURI_example_latin)
  show "encodeURI [0x20AC] = Inr ''%E2%82%AC''"
    by (rule encodeURI_example_euro)
  show "encodeURI [0xD83D, 0xDE00] = Inr ''%F0%9F%98%80''"
    by (rule encodeURI_example_pair)
  show "encodeURI [0x61, 0xD83D] = Inl URIError"
    by (rule encodeURI_example_lone)
  show "repo_path workspace repoSlug rest = Inl URIError
        \<longleftrightarrow> lone_surrogate workspace \<or> lone_surrogate repoSlug"
    by (rule repo_path_URIError)
  show "\<forall>w r. encodeURI workspace = Inr w \<and> encodeURI repoSlug = Inr r \<longrightarrow>
         repo_path workspace repoSlug rest = Inr (''repositories/'' @ w @ ''/'' @ r @ rest)"
    using repo_path_encoded by blast
  show "workspace_path workspace = Inl URIError \<longleftrightarrow> lone_surrogate workspace"
    by (rule workspace_path_URIError)
  show "\<forall>w. encodeURI workspace = Inr w \<longrightarrow>
         workspace_path workspace = Inr (''repositories/'' @ w)"
    using workspace_path_encoded by blast
  show "(\<exists>e. create api workspace repo log = throw e log)
       \<or> (\<exists>name. read_prop repo ''name'' = JStr name
            \<and> create api workspace repo log
              = api_post_path api (repo_path workspace (code_units (repoSlug_of name)) [])
                  repo log)"
    by (rule create_path)
  show "getPullRequests states api workspace repoSlug state log = throw TypeError log
       \<or> (\<exists>params. getPullRequests states api workspace repoSlug state log
             = api_get_path api (repo_path workspace repoSlug ''/pullrequests'') params log)"
    by (rule getPullRequests_path)
  show "(\<exists>e. getPullRequestsWithFields states api workspace repoSlug options log = throw e log)
       \<or> (\<exists>params. getPullRequestsWithFields states api workspace repoSlug options log
             = api_get_path api (repo_path workspace repoSlug ''/pullrequests'') params log)"
    by (rule getPullRequestsWithFields_path)
qed (simp_all add: api_get_path_def api_post_path_def createPullRequest_def get_def
       getBranches_def getCommit_def getByWorkspace_def getForks_def)

theorem paths_use_encodeURI_witness:
  "lone_surrogate [0x61, 0xD83D]
   \<and> encodeURI [0x61, 0xD83D] = Inl URIError
   \<and> encodeURI (code_units ''my team'') = Inr ''my%20team''
   \<and> get (\<lambda>r. r) (code_units ''my team'') (code_units ''r'') []
     = (Inr (Get ''repositories/my%20team/r'' None), [Get ''repositories/my%20team/r'' None])
   \<and> get (\<lambda>r. r) [0x61, 0xD83D] (code_units ''r'') [] = (Inl URIError, [])"
proof -
  note at_lone =
    paths_use_encodeURI
      [where s = "[0x61, 0xD83D]" and workspace = "[0x61, 0xD83D]"
         and repoSlug = "code_units ''r''" and rest = "[]" and api = "\<lambda>r. r"
         and log = "[]" and u = "0x20" and us = "[]" and v = "0xDE00" and vs = "[]"
         and c = "CHR ''/''" and octet = "0x20" and cp = "0x20" and e = URIError
         and params = None and p = "[]" and body = JNull and repo = JNull
         and pullRequest = JNull and sha = "[]" and states = "[]" and state = JNull
         and options = JNull]
  note at_team =
    paths_use_encodeURI
      [where s = "code_units ''my team''" and workspace = "code_units ''my team''"
         and repoSlug = "code_units ''r''" and rest = "[]" and api = "\<lambda>r. r"
         and log = "[]" and u = "0x20" and us = "[]" and v = "0xDE00" and vs = "[]"
         and c = "CHR ''/''" and octet = "0x20" and cp = "0x20" and e = URIError
         and params = None and p = "[]" and body = JNull and repo = JNull
         and pullRequest = JNull and sha = "[]" and states = "[]" and state = JNull
         and options = JNull]
  have lone: "lone_surrogate [0x61, 0xD83D]"
    by (simp add: leading_surrogate_def trailing_surrogate_def)
  from at_lone have "encodeURI [0x61, 0xD83D] = Inl URIError \<longleftrightarrow> lone_surrogate [0x61, 0xD83D]"
    by (elim conjE) assumption
  with lone have thrown: "encodeURI [0x61, 0xD83D] = Inl URIError"
    by blast
  from at_lone have "repo_path [0x61, 0xD83D] (code_units ''r'') [] = Inl URIError
      \<longleftrightarrow> lone_surrogate [0x61, 0xD83D] \<or> lone_surrogate (code_units ''r'')"
    by (elim conjE) assumption
  with lone have no_path: "repo_path [0x61, 0xD83D] (code_units ''r'') [] = Inl URIError"
    by blast
  from at_lone have "get (\<lambda>r. r) [0x61, 0xD83D] (code_units ''r'') []
      = api_get_path (\<lambda>r. r) (repo_path [0x61, 0xD83D] (code_units ''r'') []) None []"
    by (elim conjE) assumption
  with no_path have no_call:
    "get (\<lambda>r. r) [0x61, 0xD83D] (code_units ''r'') [] = (Inl URIError, [])"
    by (simp add: api_get_path_def throw_def)
  from at_team have team: "encodeURI (code_units ''my team'') = Inr ''my%20team''"
    by (elim conjE) assumption
  have r: "encodeURI (code_units ''r'') = Inr ''r''"
    by (simp add: encodeURI_unfold)
  from at_team have "\<forall>w r. encodeURI (code_units ''my team'') = Inr w
        \<and> encodeURI (code_units ''r'') = Inr r \<longrightarrow>
      repo_path (code_units ''my team'') (code_units ''r'') []
      = Inr (''repositories/'' @ w @ ''/'' @ r @ [])"
    by (elim conjE) assumption
  with team r have path: "repo_path (code_units ''my team'') (code_units ''r'') []
      = Inr ''repositories/my%20team/r''"
    by simp
  from at_team have "get (\<lambda>r. r) (code_units ''my team'') (code_units ''r'') []
      = api_get_path (\<lambda>r. r) (repo_path (code_units ''my team'') (code_units ''r'') [])
          None []"
    by (elim conjE) assumption
  with path have call: "get (\<lambda>r. r) (code_units ''my team'') (code_units ''r'') []
     = (Inr (Get ''repositories/my%20team/r'' None), [Get ''repositories/my%20team/r'' None])"
    by (simp add: api_get_path_def api_get_def)
  from lone thrown team call no_call show ?thesis by blast
qed

text \<open>
  The workspace \<^verbatim>\<open>a/b\<close> is placed in the path with its slash, which the claim counts among
  the characters to be escaped: the request goes to a path of four segments.
\<close>

theorem get_slash_counterexample:
  "encodeURI (code_units ''a/b'') = Inr ''a/b''
   \<and> get (\<lambda>r. r) (code_units ''a/b'') (code_units ''r'') []
     = (Inr (Get ''repositories/a/b/r'' None), [Get ''repositories/a/b/r'' None])"
  by (simp add: get_def repo_path_def api_get_path_def api_get_def encodeURI_unfold)


end
